theory Spec2Isabelle
  imports Main "HOL-Library.Word" "HOL-Library.Sublist"
begin

section \<open>Bytes, Python strings and the exceptions of the collectors\<close>

text \<open>
  A Python \<^verbatim>\<open>bytes\<close> object is a list of 8-bit words. A Python \<^verbatim>\<open>str\<close> is a list of
  Unicode code points (natural numbers), which is what \<^verbatim>\<open>len\<close>, \<^verbatim>\<open>rstrip\<close>,
  \<^verbatim>\<open>startswith\<close> and \<^verbatim>\<open>split\<close> work on. Message types are Python integers.
\<close>

type_synonym byte = "8 word"
type_synonym pystr = "nat list"

definition str :: "string \<Rightarrow> pystr" where
  "str s = map of_char s"

datatype error =
    StructError
  | IncompleteReadError
  | ConnectionResetError
  | UnicodeDecodeError
  | UnicodeEncodeError
  | ValueError
  | KeyError
  | SinkError

section \<open>struct.pack and struct.unpack, big-endian unsigned\<close>

text \<open>
  \<^verbatim>\<open>struct.pack('>I', n)\<close> is \<open>pack_be 4 n\<close> and \<^verbatim>\<open>struct.pack('>H', n)\<close> is
  \<open>pack_be 2 n\<close>, for \<open>n\<close> in range; out of range \<^verbatim>\<open>struct.pack\<close> raises
  \<^verbatim>\<open>struct.error\<close>, which the callers below check before packing.
  \<^verbatim>\<open>struct.unpack\<close> of an unsigned format on a buffer of the right length is
  \<open>unpack_be\<close>; on a buffer of another length it raises \<^verbatim>\<open>struct.error\<close>.
\<close>

fun pack_be :: "nat \<Rightarrow> nat \<Rightarrow> byte list" where
  "pack_be 0 n = []"
| "pack_be (Suc k) n = word_of_nat (n div 256 ^ k) # pack_be k n"

definition unpack_be :: "byte list \<Rightarrow> nat" where
  "unpack_be bs = foldl (\<lambda>acc b. acc * 256 + unat b) 0 bs"

definition struct_unpack :: "nat \<Rightarrow> byte list \<Rightarrow> error + nat" where
  "struct_unpack k bs = (if length bs = k then Inr (unpack_be bs) else Inl StructError)"

text \<open>Python's slice \<^verbatim>\<open>data[i:j]\<close> for non-negative bounds: it never raises, it clamps.\<close>

definition slice :: "'a list \<Rightarrow> nat \<Rightarrow> nat \<Rightarrow> 'a list" where
  "slice xs i j = take (j - i) (drop i xs)"

section \<open>The stream reader and writer of the binary protocol\<close>

text \<open>
  \<^verbatim>\<open>asyncio.StreamReader\<close>. The bytes already received are in \<open>buffer\<close>;
  \<open>exception\<close> says that the transport has reported an error (a connection reset) that
  the reader has stored; \<open>incoming\<close> is what the socket will still deliver, one event
  per wait of the reader: a chunk of data, or the loss of the connection. After the last
  event the peer closes the stream (end of file).

  \<^verbatim>\<open>readexactly(n)\<close> raises the stored exception before it looks at the buffer.
  Otherwise it waits for events until the buffer holds \<open>n\<close> bytes and removes them; at
  end of file it clears the buffer and raises \<^verbatim>\<open>IncompleteReadError\<close>; when the
  connection is lost while it waits, the exception is stored and raised.
\<close>

datatype event = Data "byte list" | ConnectionLost

record stream_reader =
  buffer :: "byte list"
  exception :: bool
  incoming :: "event list"

fun readexactly_loop :: "nat \<Rightarrow> byte list \<Rightarrow> event list \<Rightarrow> (error + byte list) \<times> stream_reader" where
  "readexactly_loop n buf evs =
     (if n \<le> length buf
      then (Inr (take n buf), \<lparr>buffer = drop n buf, exception = False, incoming = evs\<rparr>)
      else (case evs of
              [] \<Rightarrow> (Inl IncompleteReadError, \<lparr>buffer = [], exception = False, incoming = []\<rparr>)
            | Data c # evs' \<Rightarrow> readexactly_loop n (buf @ c) evs'
            | ConnectionLost # evs' \<Rightarrow>
                (Inl ConnectionResetError, \<lparr>buffer = buf, exception = True, incoming = evs'\<rparr>)))"

definition readexactly :: "nat \<Rightarrow> stream_reader \<Rightarrow> (error + byte list) \<times> stream_reader" where
  "readexactly n r =
     (if exception r then (Inl ConnectionResetError, r)
      else if n = 0 then (Inr [], r)
      else readexactly_loop n (buffer r) (incoming r))"

text \<open>
  The bytes a reader can still hand out: its buffer and the data chunks that arrive
  before the connection is lost or closed.
\<close>

fun delivered :: "event list \<Rightarrow> byte list" where
  "delivered [] = []"
| "delivered (Data c # evs) = c @ delivered evs"
| "delivered (ConnectionLost # evs) = []"

definition pending :: "stream_reader \<Rightarrow> byte list" where
  "pending r = buffer r @ delivered (incoming r)"

text \<open>Whether the stream ends by a loss of the connection rather than by end of file.\<close>

definition ends_lost :: "stream_reader \<Rightarrow> bool" where
  "ends_lost r = (ConnectionLost \<in> set (incoming r))"

datatype level = DEBUG | INFO | WARNING | ERROR

type_synonym log_entry = "level \<times> string"

text \<open>
  \<^verbatim>\<open>RithmicBinaryProtocol\<close>. \<open>written\<close> is what has gone out on the wire, one entry
  per \<^verbatim>\<open>self.writer.write\<close> that the transport accepted. \<open>writer_broken\<close> says that
  the transport has lost the connection, so that \<^verbatim>\<open>writer.drain()\<close> raises; it also
  raises the exception stored in the reader. \<open>connected\<close> is the flag of the class: only
  \<^verbatim>\<open>connect\<close>, \<^verbatim>\<open>disconnect\<close> and an incomplete read change it.
\<close>

record protocol =
  connected :: bool
  reader :: stream_reader
  writer_broken :: bool
  written :: "byte list list"
  plog :: "log_entry list"

text \<open>
  \<^verbatim>\<open>send_message\<close>: nothing is sent when not connected. Inside the \<^verbatim>\<open>try\<close>,
  \<^verbatim>\<open>struct.pack('>IH', ...)\<close> raises when the length does not fit 32 bits or the type
  does not fit 16 bits, and \<^verbatim>\<open>drain\<close> raises when the connection is gone; the
  \<^verbatim>\<open>except\<close> logs either and returns \<^verbatim>\<open>False\<close>, and \<open>connected\<close> stays as it
  was.
\<close>

definition frame :: "int \<Rightarrow> byte list \<Rightarrow> byte list" where
  "frame msg_type data = pack_be 4 (length data + 2) @ pack_be 2 (nat msg_type) @ data"

definition send_failed :: "protocol \<Rightarrow> bool \<times> protocol" where
  "send_failed p = (False, p\<lparr>plog := plog p @ [(ERROR, ''Failed to send message'')]\<rparr>)"

definition send_message :: "protocol \<Rightarrow> int \<Rightarrow> byte list \<Rightarrow> bool \<times> protocol" where
  "send_message p msg_type data =
     (if \<not> connected p then (False, p)
      else
        let msg_length = length data + 2 in
        if \<not> (msg_length < 2 ^ 32 \<and> 0 \<le> msg_type \<and> msg_type < 2 ^ 16) then send_failed p
        else if writer_broken p \<or> exception (reader p) then send_failed p
        else (True, p\<lparr>written := written p @ [frame msg_type data]\<rparr>))"

text \<open>
  \<^verbatim>\<open>receive_message\<close>: the length, the type, then \<open>msg_length - 2\<close> payload bytes when
  that is positive. \<^verbatim>\<open>IncompleteReadError\<close> is logged as a warning and marks the
  protocol disconnected; any other exception is logged as an error and leaves
  \<open>connected\<close> as it was. Both return no message.
\<close>

definition receive_failed :: "protocol \<Rightarrow> error \<Rightarrow> stream_reader \<Rightarrow> protocol" where
  "receive_failed p e r =
     (if e = IncompleteReadError
      then p\<lparr>connected := False, reader := r,
             plog := plog p @ [(WARNING, ''Connection closed by server'')]\<rparr>
      else p\<lparr>reader := r, plog := plog p @ [(ERROR, ''Failed to receive message'')]\<rparr>)"

definition receive_message :: "protocol \<Rightarrow> (int \<times> byte list) option \<times> protocol" where
  "receive_message p =
     (if \<not> connected p then (None, p)
      else
        case readexactly 4 (reader p) of
          (Inl e, r1) \<Rightarrow> (None, receive_failed p e r1)
        | (Inr length_data, r1) \<Rightarrow>
            let msg_length = unpack_be length_data in
            (case readexactly 2 r1 of
               (Inl e, r2) \<Rightarrow> (None, receive_failed p e r2)
             | (Inr type_data, r2) \<Rightarrow>
                 let msg_type = int (unpack_be type_data);
                     data_length = int msg_length - 2
                 in if data_length > 0
                    then (case readexactly (nat data_length) r2 of
                            (Inl e, r3) \<Rightarrow> (None, receive_failed p e r3)
                          | (Inr data, r3) \<Rightarrow> (Some (msg_type, data), p\<lparr>reader := r3\<rparr>))
                    else (Some (msg_type, []), p\<lparr>reader := r2\<rparr>)))"

section \<open>The symbol to exchange resolver\<close>

text \<open>
  \<^verbatim>\<open>SYMBOL_EXCHANGE_MAP\<close> is a dictionary literal; Python iterates it in the order
  written, so it is an association list.
\<close>

definition SYMBOL_EXCHANGE_MAP :: "(pystr \<times> pystr) list" where
  "SYMBOL_EXCHANGE_MAP =
     [(str ''GC'', str ''COMEX''), (str ''MGC'', str ''COMEX''), (str ''GLD'', str ''COMEX''),
      (str ''CL'', str ''NYMEX''), (str ''NG'', str ''NYMEX''), (str ''RB'', str ''NYMEX''),
      (str ''HO'', str ''NYMEX''),
      (str ''ES'', str ''CME''), (str ''NQ'', str ''CME''), (str ''YM'', str ''CBOT''),
      (str ''RTY'', str ''CME''),
      (str ''6A'', str ''CME''), (str ''6B'', str ''CME''), (str ''6C'', str ''CME''),
      (str ''6E'', str ''CME''), (str ''6J'', str ''CME''), (str ''6S'', str ''CME''),
      (str ''ZC'', str ''CBOT''), (str ''ZS'', str ''CBOT''), (str ''ZW'', str ''CBOT''),
      (str ''ZL'', str ''CBOT''), (str ''ZM'', str ''CBOT''),
      (str ''SI'', str ''COMEX''), (str ''HG'', str ''COMEX''), (str ''PA'', str ''NYMEX''),
      (str ''PL'', str ''NYMEX'')]"

text \<open>
  \<^verbatim>\<open>s.rstrip(chars)\<close>: scan from the right end while the character is one of
  \<open>chars\<close>, keep what is left of the scan position.
\<close>

fun rstrip_scan :: "pystr \<Rightarrow> pystr \<Rightarrow> nat \<Rightarrow> nat" where
  "rstrip_scan chars s 0 = 0"
| "rstrip_scan chars s (Suc j) = (if s ! j \<in> set chars then rstrip_scan chars s j else Suc j)"

definition rstrip :: "pystr \<Rightarrow> pystr \<Rightarrow> pystr" where
  "rstrip s chars = take (rstrip_scan chars s (length s)) s"

text \<open>\<^verbatim>\<open>s.startswith(prefix)\<close>.\<close>

fun startswith :: "pystr \<Rightarrow> pystr \<Rightarrow> bool" where
  "startswith s [] = True"
| "startswith [] (p # ps) = False"
| "startswith (c # cs) (p # ps) = (c = p \<and> startswith cs ps)"

text \<open>
  \<^verbatim>\<open>get_exchange_for_symbol\<close>: the loop over the items of the table returns at the
  first prefix the stripped symbol starts with; after the loop the default is returned.
\<close>

fun exchange_loop :: "(pystr \<times> pystr) list \<Rightarrow> pystr \<Rightarrow> pystr" where
  "exchange_loop [] base = str ''CME''"
| "exchange_loop ((pfx, exchange) # items) base =
     (if startswith base pfx then exchange else exchange_loop items base)"

definition get_exchange_for_symbol :: "pystr \<Rightarrow> pystr" where
  "get_exchange_for_symbol symbol =
     (let base = rstrip symbol (str ''0123456789'')
      in exchange_loop SYMBOL_EXCHANGE_MAP base)"

text \<open>
  The resolver as the specification words it: strip the trailing numeric suffix, look the
  root up in the table of root prefixes, first match wins, default otherwise.
\<close>

definition is_digit :: "nat \<Rightarrow> bool" where
  "is_digit c = (48 \<le> c \<and> c \<le> 57)"

definition resolveExchange_spec :: "(pystr \<times> pystr) list \<Rightarrow> pystr \<Rightarrow> pystr \<Rightarrow> pystr" where
  "resolveExchange_spec table dflt rawSymbol =
     (let root = rev (dropWhile is_digit (rev rawSymbol))
      in case find (\<lambda>(p, e). prefix p root) table of
           Some (p, e) \<Rightarrow> e
         | None \<Rightarrow> dflt)"

section \<open>Python values used by the collectors\<close>

text \<open>
  A Python number is an \<^verbatim>\<open>int\<close> or a \<^verbatim>\<open>float\<close>; a float is kept as its 64 bits, which
  is what \<^verbatim>\<open>struct.unpack('>d', ...)\<close> reads. \<^verbatim>\<open>Decimal(str(x))\<close> is kept symbolically.
  A number is false in a condition when it is zero (for a float: plus or minus zero).
\<close>

datatype pynum = PyInt int | PyFloat "64 word"

fun truthy :: "pynum \<Rightarrow> bool" where
  "truthy (PyInt i) = (i \<noteq> 0)"
| "truthy (PyFloat b) = (b \<noteq> 0 \<and> b \<noteq> push_bit 63 1)"

datatype decimal = Decimal pynum

text \<open>A \<^verbatim>\<open>datetime\<close>, as milliseconds since the epoch.\<close>

datatype datetime = Datetime nat

text \<open>
  \<^verbatim>\<open>bytes.decode('utf-8')\<close>, strict: the well-formed byte sequences of the Unicode
  standard (no overlong forms, no surrogates, nothing above U+10FFFF); anything else raises
  \<^verbatim>\<open>UnicodeDecodeError\<close>.
\<close>

definition cont :: "byte \<Rightarrow> bool" where
  "cont b = (128 \<le> unat b \<and> unat b \<le> 191)"

fun utf8_decode :: "byte list \<Rightarrow> pystr option" where
  "utf8_decode [] = Some []"
| "utf8_decode (b0 # bs) =
     (let c0 = unat b0 in
      if c0 < 128 then map_option ((#) c0) (utf8_decode bs)
      else if 194 \<le> c0 \<and> c0 \<le> 223 then
        (case bs of
           b1 # bs' \<Rightarrow>
             if cont b1
             then map_option ((#) ((c0 - 192) * 64 + (unat b1 - 128))) (utf8_decode bs')
             else None
         | _ \<Rightarrow> None)
      else if 224 \<le> c0 \<and> c0 \<le> 239 then
        (case bs of
           b1 # b2 # bs' \<Rightarrow>
             if cont b1 \<and> cont b2 \<and> (if c0 = 224 then 160 \<le> unat b1 else True) \<and>
                (if c0 = 237 then unat b1 \<le> 159 else True)
             then map_option ((#) ((c0 - 224) * 4096 + (unat b1 - 128) * 64 + (unat b2 - 128)))
                    (utf8_decode bs')
             else None
         | _ \<Rightarrow> None)
      else if 240 \<le> c0 \<and> c0 \<le> 244 then
        (case bs of
           b1 # b2 # b3 # bs' \<Rightarrow>
             if cont b1 \<and> cont b2 \<and> cont b3 \<and> (if c0 = 240 then 144 \<le> unat b1 else True) \<and>
                (if c0 = 244 then unat b1 \<le> 143 else True)
             then map_option ((#) ((c0 - 240) * 262144 + (unat b1 - 128) * 4096 +
                                  (unat b2 - 128) * 64 + (unat b3 - 128)))
                    (utf8_decode bs')
             else None
         | _ \<Rightarrow> None)
      else None)"

definition decode_utf8 :: "byte list \<Rightarrow> error + pystr" where
  "decode_utf8 bs = (case utf8_decode bs of None \<Rightarrow> Inl UnicodeDecodeError | Some s \<Rightarrow> Inr s)"

section \<open>The message parser of the binary collector\<close>

definition RITHMIC_MSG_TYPES :: "(int \<times> string) list" where
  "RITHMIC_MSG_TYPES =
     [(100, ''MARKET_DATA_REQUEST''), (101, ''MARKET_DATA_RESPONSE''), (102, ''LAST_TRADE''),
      (103, ''BID_OFFER''), (104, ''MARKET_MODE''), (105, ''OPEN_INTEREST''),
      (106, ''SETTLEMENT_PRICE''), (107, ''MARKET_DEPTH_REQUEST''),
      (108, ''MARKET_DEPTH_RESPONSE''), (109, ''MARKET_DEPTH_UPDATE''), (110, ''TRADE_VOLUME''),
      (111, ''OPEN_RANGE''), (112, ''HIGH_LOW''), (113, ''TRADE_STATISTICS''),
      (200, ''HISTORY_REQUEST''), (201, ''HISTORY_RESPONSE''), (202, ''HISTORY_TICK''),
      (203, ''HISTORY_BAR''),
      (300, ''PNL_REQUEST''), (301, ''PNL_RESPONSE''), (302, ''PNL_UPDATE'')]"

text \<open>
  One level of a depth message: a dictionary with the keys \<^verbatim>\<open>price\<close>, \<^verbatim>\<open>size\<close> and
  \<^verbatim>\<open>order_count\<close>, each of which may be absent.
\<close>

record depth_level =
  level_price :: "pynum option"
  level_size :: "int option"
  level_order_count :: "int option"

text \<open>
  The dictionary that \<^verbatim>\<open>parse_market_data\<close> returns and the store functions read: one
  field per key that either of them uses, \<open>None\<close> when the key is absent.
\<close>

record message =
  msg_kind :: string
  m_symbol :: "pystr option"
  m_price :: "pynum option"
  m_size :: "int option"
  m_timestamp :: "datetime option"
  m_bid_price :: "pynum option"
  m_bid_size :: "int option"
  m_ask_price :: "pynum option"
  m_ask_size :: "int option"
  m_aggressor :: "int option"
  m_trade_id :: "int option"
  m_bids :: "depth_level list option"
  m_asks :: "depth_level list option"

definition new_message :: "int \<Rightarrow> message" where
  "new_message msg_type =
     \<lparr>msg_kind = (case map_of RITHMIC_MSG_TYPES msg_type of Some n \<Rightarrow> n | None \<Rightarrow> ''UNKNOWN''),
      m_symbol = None, m_price = None, m_size = None, m_timestamp = None,
      m_bid_price = None, m_bid_size = None, m_ask_price = None, m_ask_size = None,
      m_aggressor = None, m_trade_id = None, m_bids = None, m_asks = None\<rparr>"

text \<open>
  \<^verbatim>\<open>struct.unpack\<close> of one field from a slice of the payload: \<^verbatim>\<open>struct.error\<close> unless
  the slice has exactly the size of the format.
\<close>

definition unpack_I :: "byte list \<Rightarrow> error + int" where
  "unpack_I bs = (if length bs = 4 then Inr (int (unpack_be bs)) else Inl StructError)"

definition unpack_Q :: "byte list \<Rightarrow> error + nat" where
  "unpack_Q bs = (if length bs = 8 then Inr (unpack_be bs) else Inl StructError)"

definition unpack_d :: "byte list \<Rightarrow> error + pynum" where
  "unpack_d bs =
     (if length bs = 8 then Inr (PyFloat (word_of_nat (unpack_be bs))) else Inl StructError)"

text \<open>
  \<^verbatim>\<open>datetime.fromtimestamp(timestamp / 1000.0)\<close> raises when the time is past the year
  9999 (the bound is that of a process whose local time is UTC).
\<close>

definition fromtimestamp_ms :: "nat \<Rightarrow> error + datetime" where
  "fromtimestamp_ms ms = (if ms < 253402300800000 then Inr (Datetime ms) else Inl ValueError)"

text \<open>
  \<^verbatim>\<open>parse_market_data\<close>. Nothing in it catches an exception: a failing
  \<^verbatim>\<open>decode\<close>, \<^verbatim>\<open>struct.unpack\<close> or \<^verbatim>\<open>fromtimestamp\<close> leaves the function as that
  exception.
\<close>

definition parse_last_trade :: "message \<Rightarrow> byte list \<Rightarrow> error + message" where
  "parse_last_trade result data =
     (let symbol_len = unpack_be (slice data 0 4) in
      case decode_utf8 (slice data 4 (4 + symbol_len)) of
        Inl e \<Rightarrow> Inl e
      | Inr sy \<Rightarrow>
          let offset = 4 + symbol_len in
          (case unpack_d (slice data offset (offset + 8)) of
             Inl e \<Rightarrow> Inl e
           | Inr pr \<Rightarrow>
               (case unpack_I (slice data (offset + 8) (offset + 12)) of
                  Inl e \<Rightarrow> Inl e
                | Inr sz \<Rightarrow>
                    (case unpack_Q (slice data (offset + 12) (offset + 20)) of
                       Inl e \<Rightarrow> Inl e
                     | Inr ts \<Rightarrow>
                         (case fromtimestamp_ms ts of
                            Inl e \<Rightarrow> Inl e
                          | Inr dt \<Rightarrow>
                              Inr (result\<lparr>m_symbol := Some sy, m_price := Some pr,
                                         m_size := Some sz, m_timestamp := Some dt\<rparr>))))))"

definition parse_bid_offer :: "message \<Rightarrow> byte list \<Rightarrow> error + message" where
  "parse_bid_offer result data =
     (let symbol_len = unpack_be (slice data 0 4) in
      case decode_utf8 (slice data 4 (4 + symbol_len)) of
        Inl e \<Rightarrow> Inl e
      | Inr sy \<Rightarrow>
          let offset = 4 + symbol_len in
          (case unpack_d (slice data offset (offset + 8)) of
             Inl e \<Rightarrow> Inl e
           | Inr bp \<Rightarrow>
               (case unpack_I (slice data (offset + 8) (offset + 12)) of
                  Inl e \<Rightarrow> Inl e
                | Inr bsz \<Rightarrow>
                    (case unpack_d (slice data (offset + 12) (offset + 20)) of
                       Inl e \<Rightarrow> Inl e
                     | Inr ap \<Rightarrow>
                         (case unpack_I (slice data (offset + 20) (offset + 24)) of
                            Inl e \<Rightarrow> Inl e
                          | Inr asz \<Rightarrow>
                              Inr (result\<lparr>m_symbol := Some sy, m_bid_price := Some bp,
                                         m_bid_size := Some bsz, m_ask_price := Some ap,
                                         m_ask_size := Some asz\<rparr>))))))"

definition parse_market_data :: "int \<Rightarrow> byte list \<Rightarrow> error + message" where
  "parse_market_data msg_type data =
     (let result = new_message msg_type in
      if msg_type = 102 then
        (if length data \<ge> 24 then parse_last_trade result data else Inr result)
      else if msg_type = 103 then
        (if length data \<ge> 32 then parse_bid_offer result data else Inr result)
      else if msg_type = 109 then Inr result
      else Inr result)"

section \<open>The persistence sink\<close>

text \<open>
  The two tables, as the lists of their committed rows. A column that an insert does not
  name, or names with \<^verbatim>\<open>None\<close>, is \<open>None\<close>. \<open>accepts_tick\<close> and \<open>accepts_level2\<close>
  stand for the database: \<^verbatim>\<open>cursor.execute\<close> raises on a row it does not accept
  (a constraint, a lost connection).
\<close>

record tick_row =
  t_timestamp :: datetime
  t_symbol :: "pystr option"
  t_exchange :: pystr
  t_price :: decimal
  t_size :: int
  t_bid_price :: "decimal option"
  t_ask_price :: "decimal option"
  t_bid_size :: "int option"
  t_ask_size :: "int option"
  t_aggressor_side :: "string option"
  t_trade_id :: "int option"

record level2_row =
  l_timestamp :: datetime
  l_symbol :: "pystr option"
  l_exchange :: pystr
  l_side :: string
  l_level :: nat
  l_price :: decimal
  l_size :: int
  l_order_count :: "int option"

record database =
  tick_data :: "tick_row list"
  level2_data :: "level2_row list"
  accepts_tick :: "tick_row \<Rightarrow> bool"
  accepts_level2 :: "level2_row \<Rightarrow> bool"

section \<open>The binary collector\<close>

text \<open>
  \<^verbatim>\<open>RithmicCollector\<close>: \<open>clock\<close> is what \<^verbatim>\<open>datetime.now()\<close> returns.
\<close>

record collector =
  db :: database
  proto :: protocol
  running :: bool
  symbols :: "pystr list"
  clock :: datetime
  clog :: "log_entry list"

definition priced :: "pynum option \<Rightarrow> decimal option" where
  "priced v = (case v of None \<Rightarrow> None | Some x \<Rightarrow> if truthy x then Some (Decimal x) else None)"

text \<open>
  \<^verbatim>\<open>store_tick_data\<close>: returns at once unless both \<^verbatim>\<open>symbol\<close> and \<^verbatim>\<open>price\<close> are
  keys of the message. Otherwise one row is inserted and committed; when the database
  raises, the error is logged and the transaction rolled back.
\<close>

definition store_tick_data :: "collector \<Rightarrow> message \<Rightarrow> collector" where
  "store_tick_data c data =
     (case m_symbol data of
        None \<Rightarrow> c
      | Some sy \<Rightarrow>
          (case m_price data of
             None \<Rightarrow> c
           | Some pr \<Rightarrow>
               let aggressor_side =
                     (case m_aggressor data of
                        None \<Rightarrow> None
                      | Some a \<Rightarrow> Some (if a = 1 then ''BUY'' else ''SELL''));
                   row = \<lparr>t_timestamp = (case m_timestamp data of Some t \<Rightarrow> t | None \<Rightarrow> clock c),
                          t_symbol = Some sy,
                          t_exchange = get_exchange_for_symbol sy,
                          t_price = Decimal pr,
                          t_size = (case m_size data of Some n \<Rightarrow> n | None \<Rightarrow> 0),
                          t_bid_price = priced (m_bid_price data),
                          t_ask_price = priced (m_ask_price data),
                          t_bid_size = m_bid_size data,
                          t_ask_size = m_ask_size data,
                          t_aggressor_side = aggressor_side,
                          t_trade_id = m_trade_id data\<rparr>
               in if accepts_tick (db c) row
                  then c\<lparr>db := (db c)\<lparr>tick_data := tick_data (db c) @ [row]\<rparr>,
                         clog := clog c @ [(DEBUG, ''Stored tick'')]\<rparr>
                  else c\<lparr>clog := clog c @ [(ERROR, ''Failed to store tick data'')]\<rparr>))"

text \<open>
  The two loops of \<^verbatim>\<open>store_depth_data\<close>: \<^verbatim>\<open>enumerate(levels, 1)\<close>, one insert per
  level with the position as its rank. \<^verbatim>\<open>bid['price']\<close> and \<^verbatim>\<open>bid['size']\<close> raise
  \<^verbatim>\<open>KeyError\<close> when absent. The rows wait in the transaction until the commit.
\<close>

fun insert_levels ::
  "database \<Rightarrow> datetime \<Rightarrow> pystr \<Rightarrow> string \<Rightarrow> nat \<Rightarrow> depth_level list \<Rightarrow> level2_row list \<Rightarrow>
   error + level2_row list" where
  "insert_levels d ts sy side lvl [] txn = Inr txn"
| "insert_levels d ts sy side lvl (b # rest) txn =
     (case level_price b of
        None \<Rightarrow> Inl KeyError
      | Some p \<Rightarrow>
          (case level_size b of
             None \<Rightarrow> Inl KeyError
           | Some n \<Rightarrow>
               let row = \<lparr>l_timestamp = ts, l_symbol = Some sy,
                          l_exchange = get_exchange_for_symbol sy,
                          l_side = side, l_level = lvl, l_price = Decimal p, l_size = n,
                          l_order_count =
                            Some (case level_order_count b of Some k \<Rightarrow> k | None \<Rightarrow> 1)\<rparr>
               in if accepts_level2 d row
                  then insert_levels d ts sy side (lvl + 1) rest (txn @ [row])
                  else Inl SinkError))"

definition depth_failed :: "collector \<Rightarrow> collector" where
  "depth_failed c = c\<lparr>clog := clog c @ [(ERROR, ''Failed to store depth data'')]\<rparr>"

definition store_depth_data :: "collector \<Rightarrow> message \<Rightarrow> collector" where
  "store_depth_data c data =
     (case m_symbol data of
        None \<Rightarrow> c
      | Some sy \<Rightarrow>
          let ts = (case m_timestamp data of Some t \<Rightarrow> t | None \<Rightarrow> clock c) in
          (case insert_levels (db c) ts sy ''B'' 1
                  (case m_bids data of Some l \<Rightarrow> l | None \<Rightarrow> []) [] of
             Inl e \<Rightarrow> depth_failed c
           | Inr txn \<Rightarrow>
               (case insert_levels (db c) ts sy ''S'' 1
                       (case m_asks data of Some l \<Rightarrow> l | None \<Rightarrow> []) txn of
                  Inl e \<Rightarrow> depth_failed c
                | Inr txn' \<Rightarrow>
                    c\<lparr>db := (db c)\<lparr>level2_data := level2_data (db c) @ txn'\<rparr>,
                      clog := clog c @ [(DEBUG, ''Stored depth data'')]\<rparr>)))"

text \<open>
  One turn of the loop of \<^verbatim>\<open>process_messages\<close> after a message has been received:
  parse, then store by type. An exception of \<^verbatim>\<open>parse_market_data\<close> is caught
  nowhere: it ends \<^verbatim>\<open>process_messages\<close>.
\<close>

definition dispatch :: "collector \<Rightarrow> int \<Rightarrow> byte list \<Rightarrow> error + collector" where
  "dispatch c msg_type data =
     (case parse_market_data msg_type data of
        Inl e \<Rightarrow> Inl e
      | Inr parsed_data \<Rightarrow>
          if msg_type = 102 then Inr (store_tick_data c parsed_data)
          else if msg_type = 103 then Inr (store_tick_data c parsed_data)
          else if msg_type = 109 then Inr (store_depth_data c parsed_data)
          else Inr (c\<lparr>clog := clog c @ [(DEBUG, ''Received message type'')]\<rparr>))"

text \<open>
  \<^verbatim>\<open>process_messages\<close>: the loop runs while the collector is running and the protocol
  connected, and stops when no message is received. The result is the exception that
  ended it, if any, and the state it leaves.
\<close>

function process_messages :: "collector \<Rightarrow> error option \<times> collector" where
  "process_messages c =
     (if running c \<and> connected (proto c) then
        (case receive_message (proto c) of
           (None, p') \<Rightarrow> (None, c\<lparr>proto := p'\<rparr>)
         | (Some (msg_type, data), p') \<Rightarrow>
             (case dispatch (c\<lparr>proto := p'\<rparr>) msg_type data of
                Inl e \<Rightarrow> (Some e, c\<lparr>proto := p'\<rparr>)
              | Inr c' \<Rightarrow> process_messages c'))
      else (None, c))"
  by pat_completeness auto

section \<open>Concrete inputs\<close>

text \<open>
  A database that accepts every row, and a running collector, connected, whose socket
  delivers the given chunks and is then closed by the peer.
\<close>

definition empty_db :: database where
  "empty_db =
     \<lparr>tick_data = [], level2_data = [],
      accepts_tick = (\<lambda>r. True), accepts_level2 = (\<lambda>r. True)\<rparr>"

definition collector_on :: "byte list list \<Rightarrow> collector" where
  "collector_on chunks =
     \<lparr>db = empty_db,
      proto = \<lparr>connected = True,
               reader = \<lparr>buffer = [], exception = False, incoming = map Data chunks\<rparr>,
               writer_broken = False, written = [], plog = []\<rparr>,
      running = True, symbols = [str ''ESU5''], clock = Datetime 0, clog = []\<rparr>"

text \<open>
  A BID_OFFER payload in the layout \<^verbatim>\<open>parse_market_data\<close> reads: the symbol
  \<^verbatim>\<open>ESU5\<close> with its length, bid 4500.25 (as a double) of size 3, ask 4500.50 of size 5.
\<close>

definition bid_offer_payload :: "byte list" where
  "bid_offer_payload =
     [0, 0, 0, 4, 69, 83, 85, 53,
      0x40, 0xB1, 0x94, 0x40, 0, 0, 0, 0,  0, 0, 0, 3,
      0x40, 0xB1, 0x94, 0x80, 0, 0, 0, 0,  0, 0, 0, 5]"

text \<open>
  A LAST_TRADE payload of 24 bytes whose symbol length field says 100, and a well-formed
  one: \<^verbatim>\<open>ESU5\<close>, price 4500.25, size 3, timestamp 1700000000000 ms.
\<close>

definition short_trade_payload :: "byte list" where
  "short_trade_payload =
     [0, 0, 0, 100,  0, 0, 0, 0,  0, 0, 0, 0,  0, 0, 0, 0,  0, 0, 0, 0,  0, 0, 0, 0]"

definition trade_payload :: "byte list" where
  "trade_payload =
     [0, 0, 0, 4, 69, 83, 85, 53,
      0x40, 0xB1, 0x94, 0x40, 0, 0, 0, 0,  0, 0, 0, 3,
      0, 0, 0x01, 0x8B, 0xCF, 0xE5, 0x68, 0]"


section \<open>The listener of the text collector\<close>

text \<open>
  \<^verbatim>\<open>str.strip()\<close> removes the characters that Python counts as white space from both
  ends; \<^verbatim>\<open>s.split('\n')\<close> cuts at every line feed and always returns at least one
  piece.
\<close>

definition is_space :: "nat \<Rightarrow> bool" where
  "is_space c =
     ((9 \<le> c \<and> c \<le> 13) \<or> (28 \<le> c \<and> c \<le> 32) \<or> c = 133 \<or> c = 160 \<or> c = 5760 \<or>
      (8192 \<le> c \<and> c \<le> 8202) \<or> c = 8232 \<or> c = 8233 \<or> c = 8239 \<or> c = 8287 \<or> c = 12288)"

definition strip :: "pystr \<Rightarrow> pystr" where
  "strip s = rev (dropWhile is_space (rev (dropWhile is_space s)))"

fun split_on :: "nat \<Rightarrow> pystr \<Rightarrow> pystr list" where
  "split_on sep [] = [[]]"
| "split_on sep (c # cs) =
     (if c = sep then [] # split_on sep cs
      else (case split_on sep cs of
              w # ws \<Rightarrow> (c # w) # ws
            | [] \<Rightarrow> [[c]]))"

text \<open>
  What \<^verbatim>\<open>self.socket.recv(4096)\<close> does, call after call: it returns a chunk of bytes,
  times out, or raises another error. After the last event the peer has closed the
  socket and \<^verbatim>\<open>recv\<close> returns no bytes.
\<close>

datatype recv = Chunk "byte list" | Timeout | RecvError

text \<open>
  The state of the listener thread: \<open>handled\<close> is whatever the message handlers keep.
  \<^verbatim>\<open>json.loads\<close> and \<^verbatim>\<open>_process_message\<close> are parameters: \<open>json_loads\<close> returns
  \<open>None\<close> for \<^verbatim>\<open>JSONDecodeError\<close>, \<open>process_message\<close> returns the exception that
  leaves it, if one does.
\<close>

record 'st listener =
  handled :: 'st
  l_connected :: bool
  l_running :: bool
  l_log :: "log_entry list"

text \<open>The inner loop of \<^verbatim>\<open>_listen\<close>, over the lines of one chunk.\<close>

fun for_messages ::
  "(pystr \<Rightarrow> 'm option) \<Rightarrow> ('m \<Rightarrow> 'st \<Rightarrow> error + 'st) \<Rightarrow> pystr list \<Rightarrow> 'st listener \<Rightarrow>
   error + 'st listener" where
  "for_messages json_loads process_message [] l = Inr l"
| "for_messages json_loads process_message (msg_str # messages) l =
     (if msg_str = [] then for_messages json_loads process_message messages l
      else (case json_loads msg_str of
              None \<Rightarrow> for_messages json_loads process_message messages
                        (l\<lparr>l_log := l_log l @ [(ERROR, ''Invalid JSON message'')]\<rparr>)
            | Some m \<Rightarrow>
                (case process_message m (handled l) of
                   Inl e \<Rightarrow> Inl e
                 | Inr st \<Rightarrow> for_messages json_loads process_message messages
                              (l\<lparr>handled := st\<rparr>))))"

definition listener_stopped :: "'st listener \<Rightarrow> 'st listener" where
  "listener_stopped l =
     l\<lparr>l_connected := False, l_log := l_log l @ [(INFO, ''R|Trader Pro listener stopped'')]\<rparr>"

definition listener_error :: "'st listener \<Rightarrow> 'st listener" where
  "listener_error l = listener_stopped (l\<lparr>l_log := l_log l @ [(ERROR, ''Error in listener'')]\<rparr>)"

text \<open>
  \<^verbatim>\<open>_listen\<close>: every chunk that \<^verbatim>\<open>recv\<close> returns is decoded, stripped and split
  into lines by itself. An empty chunk, or any exception other than a timeout, ends the
  loop.
\<close>

fun listen ::
  "(pystr \<Rightarrow> 'm option) \<Rightarrow> ('m \<Rightarrow> 'st \<Rightarrow> error + 'st) \<Rightarrow> recv list \<Rightarrow> 'st listener \<Rightarrow>
   'st listener" where
  "listen json_loads process_message [] l = listener_stopped l"
| "listen json_loads process_message (ev # evs) l =
     (if l_running l \<and> l_connected l then
        (case ev of
           Timeout \<Rightarrow> listen json_loads process_message evs l
         | RecvError \<Rightarrow> listener_error l
         | Chunk data \<Rightarrow>
             if data = [] then listener_stopped l
             else (case decode_utf8 data of
                     Inl e \<Rightarrow> listener_error l
                   | Inr text \<Rightarrow>
                       (case for_messages json_loads process_message
                               (split_on 10 (strip text)) l of
                          Inl e \<Rightarrow> listener_error l
                        | Inr l' \<Rightarrow> listen json_loads process_message evs l')))
      else listener_stopped l)"

text \<open>
  The lines that reach \<^verbatim>\<open>json.loads\<close>, in order: the listener run with a
  \<open>json_loads\<close> that accepts every line and a handler that only records it.
\<close>

definition decoder_calls :: "recv list \<Rightarrow> pystr list" where
  "decoder_calls evs =
     handled (listen Some (\<lambda>m st. Inr (st @ [m])) evs
                \<lparr>handled = [], l_connected = True, l_running = True, l_log = []\<rparr>)"

definition ascii :: "string \<Rightarrow> byte list" where
  "ascii s = map (\<lambda>c. word_of_nat (of_char c)) s"

section \<open>Subscriptions of the text collector\<close>

text \<open>
  \<^verbatim>\<open>RTraderProPlugin\<close>, the part that writes. A message on the wire is the JSON line of
  a dictionary; the two dictionaries the plugin builds are kept as such. \<open>send_ok\<close> says
  for each call of \<^verbatim>\<open>socket.send\<close>, by its number, whether it succeeds; otherwise it
  raises.
\<close>

datatype plugin_message = Subscribe pystr pystr | Unsubscribe pystr pystr

record plugin =
  p_connected :: bool
  send_ok :: "nat \<Rightarrow> bool"
  send_calls :: nat
  wire :: "plugin_message list"
  p_log :: "log_entry list"

definition plugin_send_message :: "plugin \<Rightarrow> plugin_message \<Rightarrow> bool \<times> plugin" where
  "plugin_send_message p message =
     (if \<not> p_connected p then (False, p)
      else if send_ok p (send_calls p)
      then (True, p\<lparr>send_calls := send_calls p + 1, wire := wire p @ [message]\<rparr>)
      else (False, p\<lparr>send_calls := send_calls p + 1,
                     p_log := p_log p @ [(ERROR, ''Failed to send message'')]\<rparr>))"

definition subscribe_market_data :: "plugin \<Rightarrow> pystr \<Rightarrow> pystr \<Rightarrow> bool \<times> plugin" where
  "subscribe_market_data p sy exchange = plugin_send_message p (Subscribe sy exchange)"

definition unsubscribe_market_data :: "plugin \<Rightarrow> pystr \<Rightarrow> pystr \<Rightarrow> bool \<times> plugin" where
  "unsubscribe_market_data p sy exchange = plugin_send_message p (Unsubscribe sy exchange)"

text \<open>
  \<^verbatim>\<open>RTraderProDataCollector\<close>: the configured symbols, the set of tracked
  subscriptions, the plugin and the database.
\<close>

record text_collector =
  plug :: plugin
  configured :: "pystr list"
  subscribed_symbols :: "pystr set"
  tdb :: database
  t_clock :: datetime
  t_log :: "log_entry list"

text \<open>
  What \<^verbatim>\<open>lpop\<close> followed by \<^verbatim>\<open>json.loads\<close> and \<^verbatim>\<open>data['symbol']\<close> gives: nothing
  in the queue, an exception (the queue is unreachable, the text is not JSON, there is no
  symbol), or a request with its symbol and, if present, its exchange.
\<close>

datatype popped = NoMessage | BadMessage | Request pystr "pystr option"

text \<open>
  \<^verbatim>\<open>subscribe_symbols\<close>: the loop over the configured symbols. A token with a colon
  is split into symbol and exchange; with more than one colon the unpacking raises
  \<^verbatim>\<open>ValueError\<close>, which leaves the function with the state reached so far.
\<close>

fun subscribe_symbols_loop ::
  "pystr list \<Rightarrow> text_collector \<Rightarrow> error option \<times> text_collector" where
  "subscribe_symbols_loop [] c = (None, c)"
| "subscribe_symbols_loop (s # rest) c =
     (let parts = (if 58 \<in> set s then split_on 58 s else [s, str ''CME'']) in
      case parts of
        [sy, exchange] \<Rightarrow>
          (case subscribe_market_data (plug c) sy exchange of
             (True, p') \<Rightarrow>
               subscribe_symbols_loop rest
                 (c\<lparr>plug := p', subscribed_symbols := insert s (subscribed_symbols c),
                    t_log := t_log c @ [(INFO, ''Subscribed'')]\<rparr>)
           | (False, p') \<Rightarrow>
               subscribe_symbols_loop rest
                 (c\<lparr>plug := p', t_log := t_log c @ [(ERROR, ''Failed to subscribe'')]\<rparr>))
      | _ \<Rightarrow> (Some ValueError, c))"

definition subscribe_symbols :: "text_collector \<Rightarrow> error option \<times> text_collector" where
  "subscribe_symbols c =
     subscribe_symbols_loop (configured c)
       (c\<lparr>t_log := t_log c @ [(INFO, ''Subscribing to symbols'')]\<rparr>)"

text \<open>\<^verbatim>\<open>check_new_subscriptions\<close> of the text collector.\<close>

definition t_check_new_subscriptions :: "text_collector \<Rightarrow> popped \<Rightarrow> text_collector" where
  "t_check_new_subscriptions c message =
     (case message of
        NoMessage \<Rightarrow> c
      | BadMessage \<Rightarrow> c\<lparr>t_log := t_log c @ [(ERROR, ''Failed to check new subscriptions'')]\<rparr>
      | Request sy ex \<Rightarrow>
          let exchange = (case ex of Some e \<Rightarrow> e | None \<Rightarrow> str ''CME'');
              full_symbol = sy @ str '':'' @ exchange
          in if full_symbol \<in> subscribed_symbols c then c
             else (case subscribe_market_data (plug c) sy exchange of
                     (True, p') \<Rightarrow>
                       c\<lparr>plug := p',
                         subscribed_symbols := insert full_symbol (subscribed_symbols c),
                         t_log := t_log c @ [(INFO, ''Added new subscription'')]\<rparr>
                   | (False, p') \<Rightarrow> c\<lparr>plug := p'\<rparr>))"

section \<open>Subscriptions of the binary collector\<close>

text \<open>
  \<^verbatim>\<open>str.encode('utf-8')\<close>: a surrogate code point raises \<^verbatim>\<open>UnicodeEncodeError\<close>.
\<close>

definition encode_char :: "nat \<Rightarrow> byte list option" where
  "encode_char c =
     (if c < 128 then Some [word_of_nat c]
      else if c < 2048 then Some [word_of_nat (192 + c div 64), word_of_nat (128 + c mod 64)]
      else if 55296 \<le> c \<and> c \<le> 57343 then None
      else if c < 65536
      then Some [word_of_nat (224 + c div 4096), word_of_nat (128 + c div 64 mod 64),
                 word_of_nat (128 + c mod 64)]
      else if c < 1114112
      then Some [word_of_nat (240 + c div 262144), word_of_nat (128 + c div 4096 mod 64),
                 word_of_nat (128 + c div 64 mod 64), word_of_nat (128 + c mod 64)]
      else None)"

fun encode_utf8 :: "pystr \<Rightarrow> error + byte list" where
  "encode_utf8 [] = Inr []"
| "encode_utf8 (c # cs) =
     (case encode_char c of
        None \<Rightarrow> Inl UnicodeEncodeError
      | Some bs \<Rightarrow> (case encode_utf8 cs of Inl e \<Rightarrow> Inl e | Inr rest \<Rightarrow> Inr (bs @ rest)))"

definition pack_I :: "nat \<Rightarrow> error + byte list" where
  "pack_I n = (if n < 2 ^ 32 then Inr (pack_be 4 n) else Inl StructError)"

text \<open>
  \<^verbatim>\<open>subscribe_symbol\<close>: the payload is built first (an exception there leaves the
  function), then sent as a message of type 100; the result of \<^verbatim>\<open>send_message\<close> is
  not looked at.
\<close>

definition subscription_payload :: "pystr \<Rightarrow> error + byte list" where
  "subscription_payload sy =
     (let exchange = get_exchange_for_symbol sy in
      case pack_I (length sy) of
        Inl e \<Rightarrow> Inl e
      | Inr l1 \<Rightarrow>
          (case encode_utf8 sy of
             Inl e \<Rightarrow> Inl e
           | Inr b1 \<Rightarrow>
               (case pack_I (length exchange) of
                  Inl e \<Rightarrow> Inl e
                | Inr l2 \<Rightarrow>
                    (case encode_utf8 exchange of
                       Inl e \<Rightarrow> Inl e
                     | Inr b2 \<Rightarrow> Inr (l1 @ b1 @ l2 @ b2 @ pack_be 4 1)))))"

definition subscribe_symbol :: "protocol \<Rightarrow> pystr \<Rightarrow> error + protocol" where
  "subscribe_symbol p sy =
     (let p1 = p\<lparr>plog := plog p @ [(INFO, ''Subscribing'')]\<rparr> in
      case subscription_payload sy of
        Inl e \<Rightarrow> Inl e
      | Inr data \<Rightarrow> Inr (snd (send_message p1 100 data)))"

text \<open>
  \<^verbatim>\<open>check_new_subscriptions\<close> of the binary collector: a symbol not yet in the list is
  appended first; the subscription is sent only if the protocol is connected. An
  exception of \<^verbatim>\<open>subscribe_symbol\<close> is logged; the symbol stays in the list.
\<close>

definition check_new_subscriptions :: "collector \<Rightarrow> popped \<Rightarrow> collector" where
  "check_new_subscriptions c message =
     (case message of
        NoMessage \<Rightarrow> c
      | BadMessage \<Rightarrow> c\<lparr>clog := clog c @ [(ERROR, ''Failed to check subscriptions'')]\<rparr>
      | Request sy ex \<Rightarrow>
          if sy \<in> set (symbols c) then c
          else
            let c1 = c\<lparr>symbols := symbols c @ [sy],
                       clog := clog c @ [(INFO, ''Adding new symbol'')]\<rparr>
            in if connected (proto c1)
               then (case subscribe_symbol (proto c1) sy of
                       Inl e \<Rightarrow> c1\<lparr>clog := clog c1 @ [(ERROR, ''Failed to check subscriptions'')]\<rparr>
                     | Inr p' \<Rightarrow> c1\<lparr>proto := p'\<rparr>)
               else c1)"



section \<open>Start of the binary collector\<close>

text \<open>
  \<^verbatim>\<open>RithmicBinaryProtocol.connect\<close>: \<^verbatim>\<open>asyncio.open_connection\<close> either gives a
  stream or raises; the exception is logged and \<^verbatim>\<open>False\<close> returned.
\<close>

definition connect :: "protocol \<Rightarrow> stream_reader option \<Rightarrow> bool \<times> protocol" where
  "connect p opened =
     (case opened of
        Some r \<Rightarrow> (True, p\<lparr>reader := r, writer_broken := False, connected := True,
                          plog := plog p @ [(INFO, ''Connected to Rithmic'')]\<rparr>)
      | None \<Rightarrow> (False, p\<lparr>plog := plog p @ [(ERROR, ''Failed to connect'')]\<rparr>))"

text \<open>
  What \<^verbatim>\<open>run\<close> awaits while it connects: a connection attempt, or a sleep of so many
  seconds.
\<close>

datatype run_event = ConnectAttempt | Sleep nat

text \<open>
  The retry loop of \<^verbatim>\<open>run\<close>: \<open>opens k\<close> is what the attempt made after \<open>k\<close>
  failed ones gets from the network. The loop stops at the first success, or when
  \<open>retry_count\<close> has reached 5.
\<close>

function connect_retry ::
  "(nat \<Rightarrow> stream_reader option) \<Rightarrow> nat \<Rightarrow> collector \<Rightarrow> run_event list \<Rightarrow>
   collector \<times> run_event list" where
  "connect_retry opens retry_count c tr =
     (if retry_count < 5 then
        (case connect (proto c) (opens retry_count) of
           (True, p') \<Rightarrow> (c\<lparr>proto := p'\<rparr>, tr @ [ConnectAttempt])
         | (False, p') \<Rightarrow>
             connect_retry opens (retry_count + 1)
               (c\<lparr>proto := p',
                  clog := clog c @ [(WARNING, ''Connection attempt failed, retrying in 5 seconds'')]\<rparr>)
               (tr @ [ConnectAttempt, Sleep 5]))
      else (c, tr))"
  by pat_completeness auto
termination
  by (relation "measure (\<lambda>(opens, retry_count, c, tr). 5 - retry_count)") auto

text \<open>
  \<^verbatim>\<open>run\<close> up to the point where the protocol is connected: it returns early when the
  database or the queue cannot be reached, and, with an error in the log, when the protocol
  is not connected after the retry loop. The protocol is created afresh, not connected.
\<close>

datatype startup = DatabaseUnavailable | RedisUnavailable | ConnectFailed | Connected

definition fresh_protocol :: protocol where
  "fresh_protocol =
     \<lparr>connected = False, reader = \<lparr>buffer = [], exception = False, incoming = []\<rparr>,
      writer_broken = False, written = [], plog = []\<rparr>"

definition run_startup ::
  "bool \<Rightarrow> bool \<Rightarrow> (nat \<Rightarrow> stream_reader option) \<Rightarrow> collector \<Rightarrow>
   startup \<times> collector \<times> run_event list" where
  "run_startup database_ok redis_ok opens c =
     (let c0 = c\<lparr>clog := clog c @ [(INFO, ''Starting Rithmic Binary Protocol Collector...'')]\<rparr> in
      if \<not> database_ok
      then (DatabaseUnavailable,
            c0\<lparr>clog := clog c0 @ [(ERROR, ''Failed to connect to database'')]\<rparr>, [])
      else if \<not> redis_ok
      then (RedisUnavailable,
            c0\<lparr>clog := clog c0 @ [(INFO, ''Connected to PostgreSQL database''),
                                   (ERROR, ''Failed to connect to Redis'')]\<rparr>, [])
      else
        let c1 = c0\<lparr>clog := clog c0 @ [(INFO, ''Connected to PostgreSQL database''),
                                       (INFO, ''Connected to Redis'')],
                    proto := fresh_protocol\<rparr>;
            (c2, tr) = connect_retry opens 0 c1 []
        in if \<not> connected (proto c2)
           then (ConnectFailed,
                 c2\<lparr>clog := clog c2 @
                      [(ERROR, ''Failed to connect to R|Trader Pro after 5 attempts'')]\<rparr>, tr)
           else (Connected, c2, tr))"


section \<open>Properties of the frame codec\<close>

lemma unpack_be_snoc_gen: "foldl (\<lambda>acc b. acc * 256 + unat b) a bs = a * 256 ^ length bs + unpack_be bs"
  unfolding unpack_be_def
proof (induction bs arbitrary: a)
  case Nil show ?case by simp
next
  case (Cons b bs)
  have "foldl (\<lambda>acc b. acc * 256 + unat b) a (b # bs) = (a * 256 + unat b) * 256 ^ length bs + foldl (\<lambda>acc b. acc * 256 + unat b) 0 bs"
    using Cons.IH[of "a * 256 + unat b"] by simp
  moreover have "foldl (\<lambda>acc b. acc * 256 + unat b) 0 (b # bs) = unat b * 256 ^ length bs + foldl (\<lambda>acc b. acc * 256 + unat b) 0 bs"
    using Cons.IH[of "unat b"] by simp
  ultimately show ?case by (simp only: length_Cons power_Suc add_mult_distrib mult.assoc add.assoc)
qed

lemma unpack_be_Cons: "unpack_be (b # bs) = unat b * 256 ^ length bs + unpack_be bs"
  using unpack_be_snoc_gen[of "unat b" bs] by (simp add: unpack_be_def)

lemma length_pack_be [simp]: "length (pack_be k n) = k"
  by (induction k) simp_all

lemma unpack_pack_be: "unpack_be (pack_be k n) = n mod 256 ^ k"
proof (induction k)
  case 0 show ?case by (simp add: unpack_be_def)
next
  case (Suc k)
  have b: "unat (word_of_nat (n div 256 ^ k) :: byte) = (n div 256 ^ k) mod 256"
    by (simp add: unat_of_nat)
  have "n mod (256 ^ k * 256) = 256 ^ k * (n div 256 ^ k mod 256) + n mod 256 ^ k"
    by (rule mod_mult2_eq)
  then have "n mod 256 ^ Suc k = (n div 256 ^ k mod 256) * 256 ^ k + n mod 256 ^ k"
    by (simp add: mult.commute)
  then show ?case using Suc b
    by (simp only: pack_be.simps unpack_be_Cons length_pack_be)
qed

lemma pack_be_2: "pack_be 2 n = [word_of_nat (n div 256), word_of_nat n]"
proof -
  have "(2::nat) = Suc (Suc 0)" by simp
  show ?thesis unfolding \<open>(2::nat) = Suc (Suc 0)\<close> by simp
qed

lemma pack_be_4: "pack_be 4 n = [word_of_nat (n div 16777216), word_of_nat (n div 65536), word_of_nat (n div 256), word_of_nat n]"
proof -
  have e: "(4::nat) = Suc (Suc (Suc (Suc 0)))" by simp
  show ?thesis unfolding e by simp
qed


section \<open>Properties of the stream reader\<close>

lemma readexactly_loop_ok:
  "n \<le> length (buf @ delivered evs) \<Longrightarrow>
   fst (readexactly_loop n buf evs) = Inr (take n (buf @ delivered evs)) \<and>
   pending (snd (readexactly_loop n buf evs)) = drop n (buf @ delivered evs) \<and>
   \<not> exception (snd (readexactly_loop n buf evs)) \<and>
   ends_lost (snd (readexactly_loop n buf evs)) = (ConnectionLost \<in> set evs)"
proof (induction evs arbitrary: buf)
  case Nil
  then show ?case by (simp add: pending_def ends_lost_def)
next
  case (Cons e evs)
  show ?case
  proof (cases "n \<le> length buf")
    case True
    then show ?thesis by (simp add: pending_def ends_lost_def)
  next
    case False
    show ?thesis
    proof (cases e)
      case (Data c)
      have "n \<le> length ((buf @ c) @ delivered evs)" using Cons.prems Data by simp
      from Cons.IH[OF this] False Data show ?thesis by simp
    next
      case ConnectionLost
      then show ?thesis using Cons.prems False by simp
    qed
  qed
qed

lemma readexactly_loop_fail:
  "length (buf @ delivered evs) < n \<Longrightarrow>
   fst (readexactly_loop n buf evs) =
     Inl (if ConnectionLost \<in> set evs then ConnectionResetError else IncompleteReadError)"
proof (induction evs arbitrary: buf)
  case Nil
  then show ?case by simp
next
  case (Cons e evs)
  have nb: "\<not> n \<le> length buf" using Cons.prems by simp
  show ?case
  proof (cases e)
    case (Data c)
    have "length ((buf @ c) @ delivered evs) < n" using Cons.prems Data by simp
    from Cons.IH[OF this] nb Data show ?thesis by simp
  next
    case ConnectionLost
    then show ?thesis using nb by simp
  qed
qed

lemma readexactly_ok:
  assumes "\<not> exception r" "n \<le> length (pending r)"
  obtains r' where "readexactly n r = (Inr (take n (pending r)), r')"
    "pending r' = drop n (pending r)" "\<not> exception r'" "ends_lost r' = ends_lost r"
proof (cases "n = 0")
  case True
  then have "readexactly n r = (Inr (take n (pending r)), r)" using assms(1)
    by (simp add: readexactly_def)
  with that[of r] True assms(1) show ?thesis by simp
next
  case False
  let ?res = "readexactly_loop n (buffer r) (incoming r)"
  have "n \<le> length (buffer r @ delivered (incoming r))" using assms(2) by (simp add: pending_def)
  from readexactly_loop_ok[OF this]
  have "readexactly n r = (Inr (take n (pending r)), snd ?res)"
    "pending (snd ?res) = drop n (pending r)" "\<not> exception (snd ?res)"
    "ends_lost (snd ?res) = ends_lost r"
    using False assms(1) by (simp_all add: readexactly_def pending_def ends_lost_def prod_eq_iff)
  then show ?thesis using that by blast
qed

lemma readexactly_fail:
  assumes "\<not> exception r" "length (pending r) < n"
  shows "fst (readexactly n r) = Inl (if ends_lost r then ConnectionResetError else IncompleteReadError)"
proof -
  have "n \<noteq> 0" using assms(2) by simp
  moreover have "length (buffer r @ delivered (incoming r)) < n"
    using assms(2) by (simp add: pending_def)
  ultimately show ?thesis using assms(1) readexactly_loop_fail[of "buffer r" "incoming r" n]
    by (simp add: readexactly_def ends_lost_def)
qed

lemma readexactly_stored_exception:
  "exception r \<Longrightarrow> readexactly n r = (Inl ConnectionResetError, r)"
  by (simp add: readexactly_def)

section \<open>Properties of the frame codec\<close>

lemma length_frame: "length (frame t data) = 6 + length data"
  by (simp add: frame_def)

lemma receive_message_frame:
  assumes conn: "connected p" and noexc: "\<not> exception (reader p)"
    and valid: "0 \<le> t" "t < 2 ^ 16" "length data + 2 < 2 ^ 32"
    and stream: "pending (reader p) = frame t data @ rest"
  shows "\<exists>r'. receive_message p = (Some (t, data), p\<lparr>reader := r'\<rparr>) \<and> pending r' = rest \<and>
              \<not> exception r' \<and> ends_lost r' = ends_lost (reader p)"
proof -
  let ?hdr = "pack_be 4 (length data + 2)"
  let ?ty = "pack_be 2 (nat t)"
  have s: "pending (reader p) = ?hdr @ ?ty @ data @ rest"
    using stream by (simp add: frame_def)
  have l4: "4 \<le> length (pending (reader p))" using s by simp
  obtain r1 where r1: "readexactly 4 (reader p) = (Inr ?hdr, r1)" "pending r1 = ?ty @ data @ rest"
      "\<not> exception r1" "ends_lost r1 = ends_lost (reader p)"
    using readexactly_ok[OF noexc l4] s by auto
  have l2: "2 \<le> length (pending r1)" using r1(2) by simp
  obtain r2 where r2: "readexactly 2 r1 = (Inr ?ty, r2)" "pending r2 = data @ rest"
      "\<not> exception r2" "ends_lost r2 = ends_lost (reader p)"
    using readexactly_ok[OF r1(3) l2] r1(2,4) by auto
  have len: "unpack_be ?hdr = length data + 2"
    using valid(3) by (simp add: unpack_pack_be)
  have "nat t < 65536" using valid by simp
  then have ty: "int (unpack_be ?ty) = t"
    using valid(1) by (simp add: unpack_pack_be)
  show ?thesis
  proof (cases "data = []")
    case True
    have "receive_message p = (Some (t, data), p\<lparr>reader := r2\<rparr>)"
      using True conn r1 r2 len ty by (simp add: receive_message_def)
    moreover have "pending r2 = rest" using True r2(2) by simp
    ultimately show ?thesis using r2(3,4) by blast
  next
    case False
    have ld: "length data \<le> length (pending r2)" using r2(2) by simp
    obtain r3 where r3: "readexactly (length data) r2 = (Inr data, r3)" "pending r3 = rest"
        "\<not> exception r3" "ends_lost r3 = ends_lost (reader p)"
      using readexactly_ok[OF r2(3) ld] r2(2,4) by auto
    from False have "length data > 0" by simp
    then have "receive_message p = (Some (t, data), p\<lparr>reader := r3\<rparr>)"
      using conn r1 r2 r3 len ty by (simp add: receive_message_def)
    with r3 show ?thesis by blast
  qed
qed

lemma receive_message_stored_exception:
  assumes "connected p" "exception (reader p)"
  shows "receive_message p =
           (None, p\<lparr>plog := plog p @ [(ERROR, ''Failed to receive message'')]\<rparr>)"
  using assms by (simp add: receive_message_def readexactly_stored_exception receive_failed_def)

lemma fst_readexactly_failE:
  assumes "fst (readexactly n r) = Inl e"
  obtains r' where "readexactly n r = (Inl e, r')"
  using assms by (cases "readexactly n r") auto

lemma receive_message_truncated:
  assumes conn: "connected p" and noexc: "\<not> exception (reader p)"
    and valid: "0 \<le> t" "t < 2 ^ 16" "length data + 2 < 2 ^ 32"
    and stream: "pending (reader p) = take n (frame t data)" "n < length (frame t data)"
  shows "fst (receive_message p) = None \<and>
         connected (snd (receive_message p)) = ends_lost (reader p) \<and>
         plog (snd (receive_message p)) = plog p @
           [if ends_lost (reader p) then (ERROR, ''Failed to receive message'')
            else (WARNING, ''Connection closed by server'')]"
proof -
  let ?hdr = "pack_be 4 (length data + 2)"
  let ?ty = "pack_be 2 (nat t)"
  let ?e = "if ends_lost (reader p) then ConnectionResetError else IncompleteReadError"
  have fr: "frame t data = ?hdr @ ?ty @ data" by (simp add: frame_def)
  have n: "n < 6 + length data" using stream(2) by (simp add: length_frame)
  have len: "length (pending (reader p)) = n" using stream n by (simp add: length_frame)
  have fail: "\<And>r. fst (None :: (int \<times> byte list) option, receive_failed p ?e r) = None \<and>
         connected (snd (None :: (int \<times> byte list) option, receive_failed p ?e r)) = ends_lost (reader p) \<and>
         plog (snd (None :: (int \<times> byte list) option, receive_failed p ?e r)) = plog p @
           [if ends_lost (reader p) then (ERROR, ''Failed to receive message'')
            else (WARNING, ''Connection closed by server'')]"
    using conn by (simp add: receive_failed_def)
  show ?thesis
  proof (cases "n < 4")
    case True
    then have "fst (readexactly 4 (reader p)) = Inl ?e"
      using len noexc by (simp add: readexactly_fail)
    then obtain r' where "readexactly 4 (reader p) = (Inl ?e, r')" by (rule fst_readexactly_failE)
    then have "receive_message p = (None, receive_failed p ?e r')"
      using conn by (simp add: receive_message_def)
    then show ?thesis using fail[of r'] by simp
  next
    case False
    then have n4: "4 \<le> n" by simp
    have p4: "take 4 (pending (reader p)) = ?hdr"
      using n4 stream(1) fr by (simp add: take_take min_def)
    have l4: "4 \<le> length (pending (reader p))" using len n4 by simp
    obtain r1 where r1: "readexactly 4 (reader p) = (Inr ?hdr, r1)" "pending r1 = drop 4 (pending (reader p))"
        "\<not> exception r1" "ends_lost r1 = ends_lost (reader p)"
      using readexactly_ok[OF noexc l4] p4 by auto
    have len1: "length (pending r1) = n - 4" using r1(2) len by simp
    have ulen: "unpack_be ?hdr = length data + 2"
      using valid(3) by (simp add: unpack_pack_be)
    show ?thesis
    proof (cases "n < 6")
      case True
      then have "fst (readexactly 2 r1) = Inl ?e"
        using len1 r1(3,4) by (simp add: readexactly_fail)
      then obtain r' where "readexactly 2 r1 = (Inl ?e, r')" by (rule fst_readexactly_failE)
      then have "receive_message p = (None, receive_failed p ?e r')"
        using conn r1 by (simp add: receive_message_def)
      then show ?thesis using fail[of r'] by simp
    next
      case False
      then have n6: "6 \<le> n" by simp
      have "pending r1 = take (n - 4) (?ty @ data)"
        using r1(2) stream(1) fr n4 by (simp add: drop_take)
      then have p2: "take 2 (pending r1) = ?ty"
        using n6 by (simp add: take_take min_def)
      have l2: "2 \<le> length (pending r1)" using len1 n6 by simp
      obtain r2 where r2: "readexactly 2 r1 = (Inr ?ty, r2)" "pending r2 = drop 2 (pending r1)"
          "\<not> exception r2" "ends_lost r2 = ends_lost (reader p)"
        using readexactly_ok[OF r1(3) l2] p2 r1(4) by auto
      have len2: "length (pending r2) = n - 6" using r2(2) len1 by simp
      have d: "0 < length data" using n n6 by arith
      have "length (pending r2) < length data" using len2 n n6 by simp
      then have "fst (readexactly (length data) r2) = Inl ?e"
        using r2(3,4) by (simp add: readexactly_fail)
      then obtain r' where "readexactly (length data) r2 = (Inl ?e, r')" by (rule fst_readexactly_failE)
      then have "receive_message p = (None, receive_failed p ?e r')"
        using conn r1 r2 ulen d by (simp add: receive_message_def)
      then show ?thesis using fail[of r'] by simp
    qed
  qed
qed

text \<open>
  Claim C1 (framing round-trip). For every valid pair (a message type that fits 16 bits,
  a payload whose length plus 2 fits 32 bits), a connected sender whose transport accepts
  the write puts exactly one frame on the wire, the first four bytes of the frame hold the
  payload length plus 2 in big-endian, and a connected receiver with no stored transport
  error whose stream starts with that frame (however the socket chunks it) decodes
  exactly the original message type and payload and leaves the rest of the stream unread.
\<close>

theorem framing_round_trip:
  assumes "0 \<le> msg_type" "msg_type < 2 ^ 16" "length data + 2 < 2 ^ 32"
    and "connected s" "\<not> writer_broken s" "\<not> exception (reader s)"
    and "connected r" "\<not> exception (reader r)"
    and "pending (reader r) = frame msg_type data @ rest"
  shows "send_message s msg_type data = (True, s\<lparr>written := written s @ [frame msg_type data]\<rparr>) \<and>
         unpack_be (take 4 (frame msg_type data)) = length data + 2 \<and>
         (\<exists>r'. receive_message r = (Some (msg_type, data), r\<lparr>reader := r'\<rparr>) \<and> pending r' = rest)"
proof -
  have "send_message s msg_type data = (True, s\<lparr>written := written s @ [frame msg_type data]\<rparr>)"
    using assms(1-6) by (simp add: send_message_def)
  moreover have "unpack_be (take 4 (frame msg_type data)) = length data + 2"
    using assms(3) by (simp add: frame_def unpack_pack_be)
  moreover have "\<exists>r'. receive_message r = (Some (msg_type, data), r\<lparr>reader := r'\<rparr>) \<and> pending r' = rest"
    using receive_message_frame[OF assms(7,8) assms(1-3) assms(9)] by blast
  ultimately show ?thesis by blast
qed

theorem framing_round_trip_witness:
  "send_message \<lparr>connected = True, reader = \<lparr>buffer = [], exception = False, incoming = []\<rparr>,
                  writer_broken = False, written = [], plog = []\<rparr> 102 [1, 2, 3]
     = (True, \<lparr>connected = True, reader = \<lparr>buffer = [], exception = False, incoming = []\<rparr>,
               writer_broken = False, written = [[0, 0, 0, 5, 0, 102, 1, 2, 3]], plog = []\<rparr>) \<and>
   unpack_be (take 4 (frame 102 [1, 2, 3])) = 5 \<and>
   (\<exists>r'. receive_message \<lparr>connected = True,
             reader = \<lparr>buffer = [], exception = False,
                       incoming = [Data [0, 0, 0], Data [5, 0, 102, 1], Data [2, 3, 9]]\<rparr>,
             writer_broken = False, written = [], plog = []\<rparr>
          = (Some (102, [1, 2, 3]),
             \<lparr>connected = True, reader = r', writer_broken = False, written = [], plog = []\<rparr>) \<and>
          pending r' = [9])"
  using framing_round_trip [of 102 "[1, 2, 3]"
      "\<lparr>connected = True, reader = \<lparr>buffer = [], exception = False, incoming = []\<rparr>,
        writer_broken = False, written = [], plog = []\<rparr>"
      "\<lparr>connected = True, reader = \<lparr>buffer = [], exception = False,
          incoming = [Data [0, 0, 0], Data [5, 0, 102, 1], Data [2, 3, 9]]\<rparr>,
        writer_broken = False, written = [], plog = []\<rparr>"
      "[9]"]
  by (simp add: frame_def pending_def pack_be_4 pack_be_2)

text \<open>
  Claim C3, as the code has it. \<^verbatim>\<open>receive_message\<close> compares the length field with
  nothing: for every frame, whatever the size of its payload (as long as the length fits
  the 32-bit field), a connected receiver with no stored transport error reads the
  payload in full and returns it, and the protocol stays connected. No frame is returned
  only when the stream stops before the announced bytes have arrived, or a transport
  error is already stored: at end of file the protocol is marked disconnected; after a
  transport error it stays connected.
\<close>

theorem no_maximum_frame_size:
  assumes "connected p" "0 \<le> t" "t < 2 ^ 16" "length data + 2 < 2 ^ 32"
  shows "(\<not> exception (reader p) \<and> pending (reader p) = frame t data @ rest \<longrightarrow>
            fst (receive_message p) = Some (t, data) \<and> connected (snd (receive_message p)) \<and>
            pending (reader (snd (receive_message p))) = rest) \<and>
         (\<not> exception (reader p) \<and> n < length (frame t data) \<and>
          pending (reader p) = take n (frame t data) \<longrightarrow>
            fst (receive_message p) = None \<and>
            connected (snd (receive_message p)) = ends_lost (reader p)) \<and>
         (exception (reader p) \<longrightarrow>
            fst (receive_message p) = None \<and> connected (snd (receive_message p)))"
proof (intro conjI impI)
  assume s: "\<not> exception (reader p) \<and> pending (reader p) = frame t data @ rest"
  then have e: "\<not> exception (reader p)" and f: "pending (reader p) = frame t data @ rest"
    by simp_all
  from receive_message_frame[OF assms(1) e assms(2-4) f]
  obtain r' where r': "receive_message p = (Some (t, data), p\<lparr>reader := r'\<rparr>)" "pending r' = rest"
    by blast
  show "fst (receive_message p) = Some (t, data)" using r' by simp
  show "connected (snd (receive_message p))" using r' assms(1) by simp
  show "pending (reader (snd (receive_message p))) = rest" using r' by simp
next
  assume s: "\<not> exception (reader p) \<and> n < length (frame t data) \<and>
          pending (reader p) = take n (frame t data)"
  then have e: "\<not> exception (reader p)" and l: "n < length (frame t data)"
    and f: "pending (reader p) = take n (frame t data)" by simp_all
  note tr = receive_message_truncated[OF assms(1) e assms(2-4) f l]
  show "fst (receive_message p) = None" using tr by simp
  show "connected (snd (receive_message p)) = ends_lost (reader p)" using tr by simp
next
  assume e: "exception (reader p)"
  note st = receive_message_stored_exception[OF assms(1) e]
  show "fst (receive_message p) = None" using st by simp
  show "connected (snd (receive_message p))" using st assms(1) by simp
qed

text \<open>
  A frame announcing a payload of 16 MiB + 1 bytes, followed by that payload, is decoded
  and handed to the caller; the protocol is still connected afterwards.
\<close>

theorem oversized_frame_counterexample:
  "16 * 1024 * 1024 < length (replicate 16777217 (0::byte)) \<and>
   fst (receive_message \<lparr>connected = True,
          reader = \<lparr>buffer = [], exception = False,
                    incoming = [Data (frame 102 (replicate 16777217 0))]\<rparr>,
          writer_broken = False, written = [], plog = []\<rparr>) = Some (102, replicate 16777217 0) \<and>
   connected (snd (receive_message \<lparr>connected = True,
          reader = \<lparr>buffer = [], exception = False,
                    incoming = [Data (frame 102 (replicate 16777217 0))]\<rparr>,
          writer_broken = False, written = [], plog = []\<rparr>))"
proof -
  let ?p = "\<lparr>connected = True,
          reader = \<lparr>buffer = [], exception = False,
                    incoming = [Data (frame 102 (replicate 16777217 0))]\<rparr>,
          writer_broken = False, written = [], plog = []\<rparr>"
  have "pending (reader ?p) = frame 102 (replicate 16777217 0) @ []"
    by (simp add: pending_def)
  moreover have "length (replicate 16777217 (0::byte)) + 2 < 2 ^ 32" by simp
  ultimately obtain r' where "receive_message ?p = (Some (102, replicate 16777217 0), ?p\<lparr>reader := r'\<rparr>)"
    using receive_message_frame[of ?p 102 "replicate 16777217 0" "[]"] by auto
  then show ?thesis by simp
qed

theorem no_maximum_frame_size_witness:
  "fst (receive_message \<lparr>connected = True,
          reader = \<lparr>buffer = [], exception = False,
                    incoming = [Data [0, 0, 0, 5, 0, 102, 1], Data [2, 3, 7, 7]]\<rparr>,
          writer_broken = False, written = [], plog = []\<rparr>) = Some (102, [1, 2, 3]) \<and>
   fst (receive_message \<lparr>connected = True,
          reader = \<lparr>buffer = [], exception = False,
                    incoming = [Data [0, 0, 0, 5, 0, 102, 1], Data [2]]\<rparr>,
          writer_broken = False, written = [], plog = []\<rparr>) = None \<and>
   \<not> connected (snd (receive_message \<lparr>connected = True,
          reader = \<lparr>buffer = [], exception = False,
                    incoming = [Data [0, 0, 0, 5, 0, 102, 1], Data [2]]\<rparr>,
          writer_broken = False, written = [], plog = []\<rparr>)) \<and>
   connected (snd (receive_message \<lparr>connected = True,
          reader = \<lparr>buffer = [], exception = False,
                    incoming = [Data [0, 0, 0, 5, 0, 102, 1], Data [2], ConnectionLost]\<rparr>,
          writer_broken = False, written = [], plog = []\<rparr>)) \<and>
   fst (receive_message \<lparr>connected = True,
          reader = \<lparr>buffer = [0, 0, 0, 5, 0, 102, 1, 2, 3], exception = True, incoming = []\<rparr>,
          writer_broken = False, written = [], plog = []\<rparr>) = None"
proof -
  have f: "frame 102 [1, 2, 3] = [0, 0, 0, 5, 0, 102, 1, 2, 3]"
    by (simp add: frame_def pack_be_4 pack_be_2)
  let ?p = "\<lparr>connected = True,
          reader = \<lparr>buffer = [], exception = False,
                    incoming = [Data [0, 0, 0, 5, 0, 102, 1], Data [2, 3, 7, 7]]\<rparr>,
          writer_broken = False, written = [], plog = []\<rparr>"
  let ?q = "\<lparr>connected = True,
          reader = \<lparr>buffer = [], exception = False,
                    incoming = [Data [0, 0, 0, 5, 0, 102, 1], Data [2]]\<rparr>,
          writer_broken = False, written = [], plog = []\<rparr>"
  let ?l = "\<lparr>connected = True,
          reader = \<lparr>buffer = [], exception = False,
                    incoming = [Data [0, 0, 0, 5, 0, 102, 1], Data [2], ConnectionLost]\<rparr>,
          writer_broken = False, written = [], plog = []\<rparr>"
  let ?x = "\<lparr>connected = True,
          reader = \<lparr>buffer = [0, 0, 0, 5, 0, 102, 1, 2, 3], exception = True, incoming = []\<rparr>,
          writer_broken = False, written = [], plog = []\<rparr>"
  have "fst (receive_message ?p) = Some (102, [1, 2, 3])"
    using no_maximum_frame_size [of ?p 102 "[1, 2, 3]" "[7, 7]" 0]
    by (simp add: f pending_def)
  moreover have "fst (receive_message ?q) = None \<and> \<not> connected (snd (receive_message ?q))"
    using no_maximum_frame_size [of ?q 102 "[1, 2, 3]" "[]" 8]
    by (simp add: f pending_def ends_lost_def)
  moreover have "connected (snd (receive_message ?l))"
    using no_maximum_frame_size [of ?l 102 "[1, 2, 3]" "[]" 8]
    by (simp add: f pending_def ends_lost_def)
  moreover have "fst (receive_message ?x) = None"
    using no_maximum_frame_size [of ?x 102 "[1, 2, 3]" "[]" 0]
    by simp
  ultimately show ?thesis by simp
qed

section \<open>The read loop of the binary collector terminates\<close>

lemma store_tick_proto [simp]: "proto (store_tick_data c m) = proto c"
  by (simp add: store_tick_data_def Let_def split: option.splits)

lemma store_depth_proto [simp]: "proto (store_depth_data c m) = proto c"
  by (simp add: store_depth_data_def depth_failed_def Let_def split: option.splits sum.splits)

lemma dispatch_proto: "dispatch c t d = Inr c' \<Longrightarrow> proto c' = proto c"
  by (auto simp: dispatch_def split: sum.splits if_splits)

lemma readexactly_loop_splits:
  "readexactly_loop n buf evs = (Inr bs, r') \<Longrightarrow>
   buf @ delivered evs = bs @ pending r' \<and> length bs = n"
proof (induction evs arbitrary: buf)
  case Nil
  then show ?case by (auto simp: pending_def split: if_splits)
next
  case (Cons e evs)
  show ?case
  proof (cases "n \<le> length buf")
    case True
    then show ?thesis using Cons.prems by (auto simp: pending_def)
  next
    case False
    show ?thesis
    proof (cases e)
      case (Data c)
      then have "readexactly_loop n (buf @ c) evs = (Inr bs, r')"
        using Cons.prems False by simp
      from Cons.IH[OF this] Data show ?thesis by simp
    next
      case ConnectionLost
      then show ?thesis using Cons.prems False by simp
    qed
  qed
qed

lemma readexactly_splits:
  assumes "readexactly n r = (Inr bs, r')"
  shows "pending r = bs @ pending r' \<and> length bs = n"
proof (cases "exception r \<or> n = 0")
  case True
  then show ?thesis using assms by (auto simp: readexactly_def split: if_splits)
next
  case False
  then have "readexactly_loop n (buffer r) (incoming r) = (Inr bs, r')"
    using assms by (simp add: readexactly_def)
  from readexactly_loop_splits[OF this] show ?thesis by (simp add: pending_def)
qed

lemma receive_message_consumes:
  assumes "receive_message p = (Some m, p')"
  shows "length (pending (reader p')) < length (pending (reader p))"
proof -
  from assms have c: "connected p" by (auto simp: receive_message_def split: if_splits)
  obtain x1 r1 where e1: "readexactly 4 (reader p) = (x1, r1)" by (cases "readexactly 4 (reader p)")
  with assms c obtain b1 where b1: "x1 = Inr b1"
    by (cases x1) (auto simp: receive_message_def)
  obtain x2 r2 where e2: "readexactly 2 r1 = (x2, r2)" by (cases "readexactly 2 r1")
  with assms c e1 b1 obtain b2 where b2: "x2 = Inr b2"
    by (cases x2) (auto simp: receive_message_def Let_def)
  from readexactly_splits[of 4 "reader p" b1 r1] e1 b1
  have s1: "pending (reader p) = b1 @ pending r1" "length b1 = 4" by simp_all
  from readexactly_splits[of 2 r1 b2 r2] e2 b2
  have s2: "pending r1 = b2 @ pending r2" "length b2 = 2" by simp_all
  have "length (pending (reader p')) \<le> length (pending r2)"
  proof (cases "int (unpack_be b1) - 2 > 0")
    case False
    then have "p' = p\<lparr>reader := r2\<rparr>"
      using assms c e1 b1 e2 b2 by (simp add: receive_message_def Let_def)
    then show ?thesis by simp
  next
    case True
    obtain x3 r3 where e3: "readexactly (nat (int (unpack_be b1) - 2)) r2 = (x3, r3)"
      by (cases "readexactly (nat (int (unpack_be b1) - 2)) r2")
    with assms c e1 b1 e2 b2 True obtain b3 where b3: "x3 = Inr b3"
      by (cases x3) (auto simp: receive_message_def Let_def)
    have "p' = p\<lparr>reader := r3\<rparr>"
      using assms c e1 b1 e2 b2 e3 b3 True by (simp add: receive_message_def Let_def)
    moreover have "pending r2 = b3 @ pending r3"
      using readexactly_splits[of _ r2 b3 r3] e3 b3 by simp
    ultimately show ?thesis by simp
  qed
  then show ?thesis using s1 s2 by simp
qed

termination process_messages
proof (relation "measure (\<lambda>c. length (pending (reader (proto c))))")
  show "wf (measure (\<lambda>c. length (pending (reader (proto c)))))" by simp
next
  fix c x1 x2 y x1a x2a x2b
  assume a: "running c \<and> connected (proto c)" "(x1, x2) = receive_message (proto c)" "x1 = Some y"
    "(x1a, x2a) = y" "dispatch (c\<lparr>proto := x2\<rparr>) x1a x2a = Inr x2b"
  have "proto x2b = x2" using dispatch_proto[OF a(5)] by simp
  moreover have "length (pending (reader x2)) < length (pending (reader (proto c)))"
    using receive_message_consumes[of "proto c" y x2] a(2,3) by simp
  ultimately show "(x2b, c) \<in> measure (\<lambda>c. length (pending (reader (proto c))))" by simp
qed

declare process_messages.simps [simp del]

section \<open>The dispatcher of the binary collector at concrete frames\<close>

lemma process_step:
  assumes "running c" "connected (proto c)" "receive_message (proto c) = (Some (t, d), p')"
    "dispatch (c\<lparr>proto := p'\<rparr>) t d = Inr c'"
  shows "process_messages c = process_messages c'"
  using assms by (subst process_messages.simps) simp

lemma process_stop:
  assumes "running c" "connected (proto c)" "receive_message (proto c) = (None, p')"
  shows "process_messages c = (None, c\<lparr>proto := p'\<rparr>)"
  using assms by (subst process_messages.simps) simp

lemma process_raise:
  assumes "running c" "connected (proto c)" "receive_message (proto c) = (Some (t, d), p')"
    "dispatch (c\<lparr>proto := p'\<rparr>) t d = Inl e"
  shows "process_messages c = (Some e, c\<lparr>proto := p'\<rparr>)"
  using assms by (subst process_messages.simps) simp

lemma unpack_be_4: "unpack_be [a, b, c, d] = ((unat a * 256 + unat b) * 256 + unat c) * 256 + unat d"
  by (simp add: unpack_be_def)

lemma unpack_be_2: "unpack_be [a, b] = unat a * 256 + unat b"
  by (simp add: unpack_be_def)

lemma frame_103: "frame 103 bid_offer_payload = [0, 0, 0, 34, 0, 103] @ bid_offer_payload"
  by (simp add: frame_def pack_be_4 pack_be_2 bid_offer_payload_def)

lemma recv_bid_offer:
  "receive_message (proto (collector_on [frame 103 bid_offer_payload])) =
     (Some (103, bid_offer_payload),
      \<lparr>connected = True, reader = \<lparr>buffer = [], exception = False, incoming = []\<rparr>,
       writer_broken = False, written = [], plog = []\<rparr>)"
  unfolding frame_103
  by (simp add: collector_on_def receive_message_def readexactly_def unpack_be_4 unpack_be_2
      bid_offer_payload_def)

lemma parse_bid_offer_frame:
  "parse_market_data 103 bid_offer_payload =
     Inr ((new_message 103)\<lparr>m_symbol := Some (str ''ESU5''),
            m_bid_price := Some (PyFloat 0x40B1944000000000), m_bid_size := Some 3,
            m_ask_price := Some (PyFloat 0x40B1948000000000), m_ask_size := Some 5\<rparr>)"
  by (simp add: parse_market_data_def parse_bid_offer_def bid_offer_payload_def slice_def
      unpack_be_4 decode_utf8_def unpack_d_def unpack_I_def unpack_be_def str_def)

lemma recv_eof:
  "connected p \<Longrightarrow> reader p = \<lparr>buffer = [], exception = False, incoming = []\<rparr> \<Longrightarrow>
   receive_message p = (None, p\<lparr>connected := False,
       plog := plog p @ [(WARNING, ''Connection closed by server'')]\<rparr>)"
  by (simp add: receive_message_def readexactly_def receive_failed_def)

text \<open>
  Claim C4 at a well-formed BID_OFFER frame. The parser fills the symbol and the bid and
  ask fields and no \<^verbatim>\<open>price\<close>; \<^verbatim>\<open>store_tick_data\<close> returns before its insert
  because \<^verbatim>\<open>price\<close> is not a key of the message. The read loop ends at end of file
  with no row in \<^verbatim>\<open>tick_data\<close> and nothing logged by the collector.
\<close>

theorem bid_offer_frame_not_stored:
  "parse_market_data 103 bid_offer_payload =
     Inr ((new_message 103)\<lparr>m_symbol := Some (str ''ESU5''),
            m_bid_price := Some (PyFloat 0x40B1944000000000), m_bid_size := Some 3,
            m_ask_price := Some (PyFloat 0x40B1948000000000), m_ask_size := Some 5\<rparr>) \<and>
   fst (process_messages (collector_on [frame 103 bid_offer_payload])) = None \<and>
   tick_data (db (snd (process_messages (collector_on [frame 103 bid_offer_payload])))) = [] \<and>
   clog (snd (process_messages (collector_on [frame 103 bid_offer_payload]))) = []"
proof -
  let ?c = "collector_on [frame 103 bid_offer_payload]"
  let ?p1 = "\<lparr>connected = True, reader = \<lparr>buffer = [], exception = False, incoming = []\<rparr>,
       writer_broken = False, written = [], plog = []\<rparr>"
  have d: "dispatch (?c\<lparr>proto := ?p1\<rparr>) 103 bid_offer_payload = Inr (?c\<lparr>proto := ?p1\<rparr>)"
    by (simp add: dispatch_def parse_bid_offer_frame store_tick_data_def new_message_def)
  have "process_messages ?c = process_messages (?c\<lparr>proto := ?p1\<rparr>)"
    by (rule process_step[OF _ _ recv_bid_offer d]) (simp_all add: collector_on_def)
  also have "\<dots> = (None, ?c\<lparr>proto := ?p1\<lparr>connected := False,
       plog := plog ?p1 @ [(WARNING, ''Connection closed by server'')]\<rparr>\<rparr>)"
    by (subst process_stop[OF _ _ recv_eof]) (simp_all add: collector_on_def)
  finally show ?thesis
    by (simp add: parse_bid_offer_frame collector_on_def empty_db_def)
qed

lemma frame_102_short: "frame 102 short_trade_payload = [0, 0, 0, 26, 0, 102] @ short_trade_payload"
  by (simp add: frame_def pack_be_4 pack_be_2 short_trade_payload_def)

lemma frame_102: "frame 102 trade_payload = [0, 0, 0, 30, 0, 102] @ trade_payload"
  by (simp add: frame_def pack_be_4 pack_be_2 trade_payload_def)

lemma parse_short_trade: "parse_market_data 102 short_trade_payload = Inl StructError"
  by (simp add: parse_market_data_def parse_last_trade_def short_trade_payload_def slice_def
      unpack_be_4 decode_utf8_def unpack_d_def)

lemma unpack_be_8:
  "unpack_be [a, b, c, d, e, f, g, h] =
     ((((((unat a * 256 + unat b) * 256 + unat c) * 256 + unat d) * 256 + unat e) * 256 + unat f)
        * 256 + unat g) * 256 + unat h"
  by (simp add: unpack_be_def)

lemma parse_trade:
  "parse_market_data 102 trade_payload =
     Inr ((new_message 102)\<lparr>m_symbol := Some (str ''ESU5''),
            m_price := Some (PyFloat 0x40B1944000000000), m_size := Some 3,
            m_timestamp := Some (Datetime 1700000000000)\<rparr>)"
  by (simp add: parse_market_data_def parse_last_trade_def trade_payload_def slice_def
      unpack_be_4 unpack_be_8 decode_utf8_def unpack_d_def unpack_I_def unpack_Q_def
      fromtimestamp_ms_def str_def)

lemma recv_short_then_good:
  "receive_message (proto (collector_on [frame 102 short_trade_payload @ frame 102 trade_payload])) =
     (Some (102, short_trade_payload),
      \<lparr>connected = True,
       reader = \<lparr>buffer = frame 102 trade_payload, exception = False, incoming = []\<rparr>,
       writer_broken = False, written = [], plog = []\<rparr>)"
  unfolding frame_102_short frame_102
  by (simp add: collector_on_def receive_message_def readexactly_def unpack_be_4 unpack_be_2
      short_trade_payload_def trade_payload_def)

lemma unknown_type_ignored:
  assumes "msg_type \<noteq> 102" "msg_type \<noteq> 103" "msg_type \<noteq> 109"
  shows "dispatch c msg_type data = Inr (c\<lparr>clog := clog c @ [(DEBUG, ''Received message type'')]\<rparr>)"
  using assms by (simp add: dispatch_def parse_market_data_def)

text \<open>
  Claim C6 at a LAST_TRADE payload of 24 bytes whose symbol length field says 100. The
  length check of the parser passes, the price slice is empty and
  \<^verbatim>\<open>struct.unpack\<close> raises. Nothing catches the exception: it ends
  \<^verbatim>\<open>process_messages\<close>, nothing is logged, and the well-formed frame that follows in
  the stream stays unread in the buffer.
\<close>

theorem short_trade_payload_raises:
  "length short_trade_payload = 24 \<and>
   parse_market_data 102 short_trade_payload = Inl StructError \<and>
   process_messages (collector_on [frame 102 short_trade_payload @ frame 102 trade_payload]) =
     (Some StructError,
      (collector_on [])\<lparr>proto := (proto (collector_on []))
         \<lparr>reader := \<lparr>buffer = frame 102 trade_payload, exception = False, incoming = []\<rparr>\<rparr>\<rparr>)"
proof -
  let ?c = "collector_on [frame 102 short_trade_payload @ frame 102 trade_payload]"
  let ?p1 = "\<lparr>connected = True,
       reader = \<lparr>buffer = frame 102 trade_payload, exception = False, incoming = []\<rparr>,
       writer_broken = False, written = [], plog = []\<rparr>"
  have d: "dispatch (?c\<lparr>proto := ?p1\<rparr>) 102 short_trade_payload = Inl StructError"
    by (simp add: dispatch_def parse_short_trade)
  have "process_messages ?c = (Some StructError, ?c\<lparr>proto := ?p1\<rparr>)"
    by (rule process_raise[OF _ _ recv_short_then_good d]) (simp_all add: collector_on_def)
  moreover have "?c\<lparr>proto := ?p1\<rparr> = (collector_on [])\<lparr>proto := (proto (collector_on []))
         \<lparr>reader := \<lparr>buffer = frame 102 trade_payload, exception = False, incoming = []\<rparr>\<rparr>\<rparr>"
    by (simp add: collector_on_def)
  moreover have "length short_trade_payload = 24" by (simp add: short_trade_payload_def)
  ultimately show ?thesis using parse_short_trade by simp
qed



section \<open>The listener of the text collector at a split frame\<close>

text \<open>
  Claim C2 at a text frame that arrives in two socket reads. Fed in one read, the line
  reaches \<^verbatim>\<open>json.loads\<close> whole. Split after the eighth byte, the two reads are
  decoded, stripped and split on their own: \<^verbatim>\<open>json.loads\<close> is called on each
  fragment and never on the frame.
\<close>

theorem split_text_frame_not_reassembled:
  \<open>ascii ''{"type":'' @ (ascii ''"TICK"}'' @ [10]) = ascii ''{"type":"TICK"}'' @ [10] \<and>
   decoder_calls [Chunk (ascii ''{"type":"TICK"}'' @ [10])] = [str ''{"type":"TICK"}''] \<and>
   decoder_calls [Chunk (ascii ''{"type":''), Chunk (ascii ''"TICK"}'' @ [10])] =
     [str ''{"type":'', str ''"TICK"}'']\<close>
  by (simp add: decoder_calls_def ascii_def decode_utf8_def strip_def is_space_def str_def
      listener_stopped_def)

section \<open>Properties of the subscription managers\<close>






lemma check_symbols_grow:
  "symbols (check_new_subscriptions c m) = symbols c \<or>
   (\<exists>sy. sy \<notin> set (symbols c) \<and> symbols (check_new_subscriptions c m) = symbols c @ [sy])"
  by (cases m) (auto simp: check_new_subscriptions_def Let_def split: sum.splits)

lemma check_symbols_mono: "set (symbols c) \<subseteq> set (symbols (check_new_subscriptions c m))"
  using check_symbols_grow[of c m] by auto

lemma polls_symbols_mono: "set (symbols c) \<subseteq> set (symbols (foldl check_new_subscriptions c ms))"
proof (induction ms arbitrary: c)
  case Nil
  show ?case by simp
next
  case (Cons m ms)
  show ?case using check_symbols_mono[of c m] Cons.IH[of "check_new_subscriptions c m"] by auto
qed





lemma t_check_grows:
  "subscribed_symbols (t_check_new_subscriptions c m) = subscribed_symbols c \<or>
   (\<exists>k. subscribed_symbols (t_check_new_subscriptions c m) = insert k (subscribed_symbols c))"
  by (cases m)
     (auto simp: t_check_new_subscriptions_def Let_def subscribe_market_data_def
        plugin_send_message_def split: if_splits)


lemma dispatch_symbols: "dispatch c t d = Inr c' \<Longrightarrow> symbols c' = symbols c"
  by (auto simp: dispatch_def store_tick_data_def store_depth_data_def depth_failed_def Let_def
      split: sum.splits if_splits option.splits)

lemma process_idle:
  assumes "\<not> (running c \<and> connected (proto c))"
  shows "process_messages c = (None, c)"
  by (subst process_messages.simps) (use assms in auto)

lemma process_messages_symbols: "symbols (snd (process_messages c)) = symbols c"
proof (induction c rule: process_messages.induct)
  case (1 c)
  show ?case
  proof (cases "running c \<and> connected (proto c)")
    case False
    then show ?thesis by (simp add: process_idle)
  next
    case True
    then have r: "running c" and k: "connected (proto c)" by simp_all
    obtain x p' where rc: "receive_message (proto c) = (x, p')" by (cases "receive_message (proto c)")
    show ?thesis
    proof (cases x)
      case None
      then show ?thesis using process_stop[OF r k] rc by simp
    next
      case (Some m)
      obtain t d where m: "m = (t, d)" by (cases m)
      have rc': "receive_message (proto c) = (Some (t, d), p')" using rc Some m by simp
      show ?thesis
      proof (cases "dispatch (c\<lparr>proto := p'\<rparr>) t d")
        case (Inl e)
        then show ?thesis using process_raise[OF r k rc' Inl] by simp
      next
        case (Inr c')
        have "symbols (snd (process_messages c')) = symbols c'"
          using "1.IH"[OF True rc[symmetric] Some m[symmetric] Inr] .
        moreover have "symbols c' = symbols c" using dispatch_symbols[OF Inr] by simp
        moreover have "process_messages c = process_messages c'"
          using process_step[OF r k rc' Inr] .
        ultimately show ?thesis by simp
      qed
    qed
  qed
qed

lemma t_polls_mono:
  "subscribed_symbols c \<subseteq> subscribed_symbols (foldl t_check_new_subscriptions c ms)"
proof (induction ms arbitrary: c)
  case Nil
  show ?case by simp
next
  case (Cons m ms)
  show ?case using t_check_grows[of c m] Cons.IH[of "t_check_new_subscriptions c m"] by auto
qed

lemma subscribe_loop_mono:
  "subscribed_symbols c \<subseteq> subscribed_symbols (snd (subscribe_symbols_loop syms c))"
proof (induction syms arbitrary: c)
  case Nil
  show ?case by simp
next
  case (Cons s syms)
  let ?parts = "if 58 \<in> set s then split_on 58 s else [s, str ''CME'']"
  show ?case
  proof (cases "\<exists>sy ex. ?parts = [sy, ex]")
    case False
    then have "subscribe_symbols_loop (s # syms) c = (Some ValueError, c)"
      by (auto simp: Let_def split: list.splits)
    then show ?thesis by simp
  next
    case True
    then obtain sy ex where p: "?parts = [sy, ex]" by blast
    obtain ok p' where sm: "subscribe_market_data (plug c) sy ex = (ok, p')"
      by (cases "subscribe_market_data (plug c) sy ex")
    show ?thesis
    proof (cases ok)
      case True
      let ?c1 = "c\<lparr>plug := p', subscribed_symbols := insert s (subscribed_symbols c),
                    t_log := t_log c @ [(INFO, ''Subscribed'')]\<rparr>"
      have "subscribe_symbols_loop (s # syms) c = subscribe_symbols_loop syms ?c1"
        using p sm True by (simp add: Let_def)
      then show ?thesis using Cons.IH[of ?c1] by auto
    next
      case False
      let ?c1 = "c\<lparr>plug := p', t_log := t_log c @ [(ERROR, ''Failed to subscribe'')]\<rparr>"
      have "subscribe_symbols_loop (s # syms) c = subscribe_symbols_loop syms ?c1"
        using p sm False by (simp add: Let_def)
      then show ?thesis using Cons.IH[of ?c1] by auto
    qed
  qed
qed

lemma subscribe_one_grows:
  "subscribed_symbols (snd (subscribe_symbols_loop [s] c)) = subscribed_symbols c \<or>
   subscribed_symbols (snd (subscribe_symbols_loop [s] c)) = insert s (subscribed_symbols c)"
  by (auto simp: Let_def split: list.splits prod.splits bool.splits)

text \<open>
  Claim C10 (the tracked subscriptions only grow). In the binary collector a poll of the
  control queue leaves the symbol list as it is or appends one symbol, the read loop
  leaves it as it is, and over any sequence of polls no symbol is lost. In the text
  collector a poll leaves the set as it is or inserts one key, each turn of the initial
  loop leaves it as it is or inserts the configured token, the whole of
  \<^verbatim>\<open>subscribe_symbols\<close> and any sequence of polls lose nothing, and the unsubscribe
  routine of the plugin, which nothing calls, only writes to the socket: the set is the
  same after it.
\<close>

theorem subscriptions_only_grow:
  "(symbols (check_new_subscriptions c m) = symbols c \<or>
      (\<exists>sy. symbols (check_new_subscriptions c m) = symbols c @ [sy])) \<and>
   symbols (snd (process_messages c)) = symbols c \<and>
   set (symbols c) \<subseteq> set (symbols (foldl check_new_subscriptions c ms)) \<and>
   (subscribed_symbols (t_check_new_subscriptions tc m) = subscribed_symbols tc \<or>
      (\<exists>k. subscribed_symbols (t_check_new_subscriptions tc m) = insert k (subscribed_symbols tc))) \<and>
   (subscribed_symbols (snd (subscribe_symbols_loop [s] tc)) = subscribed_symbols tc \<or>
      subscribed_symbols (snd (subscribe_symbols_loop [s] tc)) = insert s (subscribed_symbols tc)) \<and>
   subscribed_symbols tc \<subseteq> subscribed_symbols (snd (subscribe_symbols tc)) \<and>
   subscribed_symbols tc \<subseteq> subscribed_symbols (foldl t_check_new_subscriptions tc ms) \<and>
   subscribed_symbols (tc\<lparr>plug := snd (unsubscribe_market_data (plug tc) sy ex)\<rparr>) =
     subscribed_symbols tc"
proof -
  have a: "symbols (check_new_subscriptions c m) = symbols c \<or>
      (\<exists>sy. symbols (check_new_subscriptions c m) = symbols c @ [sy])"
    using check_symbols_grow[of c m] by blast
  have b: "subscribed_symbols tc \<subseteq> subscribed_symbols (snd (subscribe_symbols tc))"
    using subscribe_loop_mono[of "tc\<lparr>t_log := t_log tc @ [(INFO, ''Subscribing to symbols'')]\<rparr>" "configured tc"]
    by (simp add: subscribe_symbols_def)
  show ?thesis
    using a b process_messages_symbols[of c] polls_symbols_mono[of c ms] t_check_grows[of tc m]
      subscribe_one_grows[of s tc] t_polls_mono[of tc ms]
    by simp
qed





section \<open>Properties of the start of the binary collector\<close>

declare connect_retry.simps [simp del]

lemma retry_all_fail:
  assumes "\<And>i. retry_count \<le> i \<Longrightarrow> i < 5 \<Longrightarrow> opens i = None" "retry_count \<le> 5"
  shows "snd (connect_retry opens retry_count c tr) =
           tr @ concat (replicate (5 - retry_count) [ConnectAttempt, Sleep 5]) \<and>
         connected (proto (fst (connect_retry opens retry_count c tr))) = connected (proto c) \<and>
         written (proto (fst (connect_retry opens retry_count c tr))) = written (proto c)"
  using assms
proof (induction opens retry_count c tr rule: connect_retry.induct)
  case (1 opens retry_count c tr)
  show ?case
  proof (cases "retry_count < 5")
    case False
    then show ?thesis using "1.prems" by (subst (1 2 3) connect_retry.simps) simp
  next
    case True
    have o: "opens retry_count = None" using "1.prems"(1)[of retry_count] True by simp
    let ?p' = "(proto c)\<lparr>plog := plog (proto c) @ [(ERROR, ''Failed to connect'')]\<rparr>"
    let ?c' = "c\<lparr>proto := ?p',
                  clog := clog c @ [(WARNING, ''Connection attempt failed, retrying in 5 seconds'')]\<rparr>"
    have cn: "connect (proto c) (opens retry_count) = (False, ?p')" using o by (simp add: connect_def)
    have step: "connect_retry opens retry_count c tr =
        connect_retry opens (retry_count + 1) ?c' (tr @ [ConnectAttempt, Sleep 5])"
      using True cn by (subst connect_retry.simps) simp
    have ih: "snd (connect_retry opens (retry_count + 1) ?c' (tr @ [ConnectAttempt, Sleep 5])) =
           (tr @ [ConnectAttempt, Sleep 5]) @ concat (replicate (5 - (retry_count + 1)) [ConnectAttempt, Sleep 5]) \<and>
         connected (proto (fst (connect_retry opens (retry_count + 1) ?c' (tr @ [ConnectAttempt, Sleep 5])))) = connected (proto ?c') \<and>
         written (proto (fst (connect_retry opens (retry_count + 1) ?c' (tr @ [ConnectAttempt, Sleep 5])))) = written (proto ?c')"
    proof (rule "1.IH"[OF True cn[symmetric] refl])
      show "\<And>i. retry_count + 1 \<le> i \<Longrightarrow> i < 5 \<Longrightarrow> opens i = None"
        using "1.prems"(1) by simp
      show "retry_count + 1 \<le> 5" using True by simp
    qed
    have r: "5 - retry_count = Suc (5 - (retry_count + 1))" using True by simp
    show ?thesis unfolding step using ih by (simp add: r)
  qed
qed

lemma retry_first_success:
  assumes "retry_count \<le> k" "k < 5" "opens k = Some r"
    "\<And>i. retry_count \<le> i \<Longrightarrow> i < k \<Longrightarrow> opens i = None"
  shows "snd (connect_retry opens retry_count c tr) =
           tr @ concat (replicate (k - retry_count) [ConnectAttempt, Sleep 5]) @ [ConnectAttempt] \<and>
         connected (proto (fst (connect_retry opens retry_count c tr))) \<and>
         reader (proto (fst (connect_retry opens retry_count c tr))) = r \<and>
         written (proto (fst (connect_retry opens retry_count c tr))) = written (proto c)"
  using assms
proof (induction opens retry_count c tr rule: connect_retry.induct)
  case (1 opens retry_count c tr)
  have lt: "retry_count < 5" using "1.prems" by simp
  show ?case
  proof (cases "retry_count = k")
    case True
    let ?p' = "(proto c)\<lparr>reader := r, writer_broken := False, connected := True,
                          plog := plog (proto c) @ [(INFO, ''Connected to Rithmic'')]\<rparr>"
    have cn: "connect (proto c) (opens retry_count) = (True, ?p')"
      using "1.prems"(3) True by (simp add: connect_def)
    have "connect_retry opens retry_count c tr = (c\<lparr>proto := ?p'\<rparr>, tr @ [ConnectAttempt])"
      using lt cn by (subst connect_retry.simps) simp
    then show ?thesis using True by simp
  next
    case False
    then have less: "retry_count < k" using "1.prems"(1) by simp
    have o: "opens retry_count = None" using "1.prems"(4)[of retry_count] less by simp
    let ?p' = "(proto c)\<lparr>plog := plog (proto c) @ [(ERROR, ''Failed to connect'')]\<rparr>"
    let ?c' = "c\<lparr>proto := ?p',
                  clog := clog c @ [(WARNING, ''Connection attempt failed, retrying in 5 seconds'')]\<rparr>"
    have cn: "connect (proto c) (opens retry_count) = (False, ?p')" using o by (simp add: connect_def)
    have step: "connect_retry opens retry_count c tr =
        connect_retry opens (retry_count + 1) ?c' (tr @ [ConnectAttempt, Sleep 5])"
      using lt cn by (subst connect_retry.simps) simp
    have ih: "snd (connect_retry opens (retry_count + 1) ?c' (tr @ [ConnectAttempt, Sleep 5])) =
           (tr @ [ConnectAttempt, Sleep 5]) @ concat (replicate (k - (retry_count + 1)) [ConnectAttempt, Sleep 5]) @ [ConnectAttempt] \<and>
         connected (proto (fst (connect_retry opens (retry_count + 1) ?c' (tr @ [ConnectAttempt, Sleep 5])))) \<and>
         reader (proto (fst (connect_retry opens (retry_count + 1) ?c' (tr @ [ConnectAttempt, Sleep 5])))) = r \<and>
         written (proto (fst (connect_retry opens (retry_count + 1) ?c' (tr @ [ConnectAttempt, Sleep 5])))) = written (proto ?c')"
    proof (rule "1.IH"[OF lt cn[symmetric] refl])
      show "retry_count + 1 \<le> k" using less by simp
      show "k < 5" using "1.prems"(2) .
      show "opens k = Some r" using "1.prems"(3) .
      show "\<And>i. retry_count + 1 \<le> i \<Longrightarrow> i < k \<Longrightarrow> opens i = None"
        using "1.prems"(4) by simp
    qed
    have r: "k - retry_count = Suc (k - (retry_count + 1))" using less by simp
    show ?thesis unfolding step using ih by (simp add: r)
  qed
qed

lemma retry_attempts_bounded:
  "length (filter (\<lambda>e. e = ConnectAttempt) (snd (connect_retry opens retry_count c tr))) \<le>
     length (filter (\<lambda>e. e = ConnectAttempt) tr) + (5 - retry_count)"
proof (induction opens retry_count c tr rule: connect_retry.induct)
  case (1 opens retry_count c tr)
  show ?case
  proof (cases "retry_count < 5")
    case False
    then show ?thesis by (subst connect_retry.simps) simp
  next
    case True
    obtain ok p' where cn: "connect (proto c) (opens retry_count) = (ok, p')"
      by (cases "connect (proto c) (opens retry_count)")
    show ?thesis
    proof (cases ok)
      case True
      with \<open>retry_count < 5\<close> cn show ?thesis by (subst connect_retry.simps) simp
    next
      case False
      let ?c' = "c\<lparr>proto := p',
                  clog := clog c @ [(WARNING, ''Connection attempt failed, retrying in 5 seconds'')]\<rparr>"
      have step: "connect_retry opens retry_count c tr =
          connect_retry opens (retry_count + 1) ?c' (tr @ [ConnectAttempt, Sleep 5])"
        using True cn False by (subst connect_retry.simps) simp
      have "length (filter (\<lambda>e. e = ConnectAttempt)
               (snd (connect_retry opens (retry_count + 1) ?c' (tr @ [ConnectAttempt, Sleep 5])))) \<le>
            length (filter (\<lambda>e. e = ConnectAttempt) (tr @ [ConnectAttempt, Sleep 5])) + (5 - (retry_count + 1))"
        using "1.IH"[OF True cn[symmetric]] False by simp
      then show ?thesis unfolding step using True by simp
    qed
  qed
qed

text \<open>
  Claim C8 (bounded connection attempts). Whatever the network does, the start of
  \<^verbatim>\<open>run\<close> makes at most 5 connection attempts. When all 5 fail, each is followed by a
  sleep of 5 seconds, the collector logs the error that it failed to connect after 5
  attempts and \<^verbatim>\<open>run\<close> returns there: the protocol is not connected and nothing has
  been written. When the attempt after \<open>k\<close> failures (\<open>k < 5\<close>) succeeds, there have
  been \<open>k\<close> failed attempts, each followed by a sleep of 5 seconds, then the successful
  one and no further attempt; the protocol is connected to the stream it was given.
\<close>

theorem connect_attempts_bounded:
  "length (filter (\<lambda>e. e = ConnectAttempt) (snd (snd (run_startup True True opens c)))) \<le> 5 \<and>
   ((\<forall>i<5. opens i = None) \<longrightarrow>
      fst (run_startup True True opens c) = ConnectFailed \<and>
      snd (snd (run_startup True True opens c)) = concat (replicate 5 [ConnectAttempt, Sleep 5]) \<and>
      \<not> connected (proto (fst (snd (run_startup True True opens c)))) \<and>
      written (proto (fst (snd (run_startup True True opens c)))) = [] \<and>
      last (clog (fst (snd (run_startup True True opens c)))) =
        (ERROR, ''Failed to connect to R|Trader Pro after 5 attempts'')) \<and>
   (k < 5 \<and> opens k = Some r \<and> (\<forall>i<k. opens i = None) \<longrightarrow>
      fst (run_startup True True opens c) = Connected \<and>
      snd (snd (run_startup True True opens c)) =
        concat (replicate k [ConnectAttempt, Sleep 5]) @ [ConnectAttempt] \<and>
      connected (proto (fst (snd (run_startup True True opens c)))) \<and>
      reader (proto (fst (snd (run_startup True True opens c)))) = r)"
proof (intro conjI impI)
  let ?c1 = "c\<lparr>clog := clog c @ [(INFO, ''Starting Rithmic Binary Protocol Collector...'')]\<rparr>
              \<lparr>clog := clog (c\<lparr>clog := clog c @ [(INFO, ''Starting Rithmic Binary Protocol Collector...'')]\<rparr>) @
                 [(INFO, ''Connected to PostgreSQL database''), (INFO, ''Connected to Redis'')],
               proto := fresh_protocol\<rparr>"
  have tr: "snd (snd (run_startup True True opens c)) = snd (connect_retry opens 0 ?c1 [])"
    by (simp add: run_startup_def Let_def case_prod_beta)
  show "length (filter (\<lambda>e. e = ConnectAttempt) (snd (snd (run_startup True True opens c)))) \<le> 5"
    unfolding tr using retry_attempts_bounded[of opens 0 ?c1 "[]"] by simp
  {
    assume a: "\<forall>i<5. opens i = None"
    have f: "snd (connect_retry opens 0 ?c1 []) = [] @ concat (replicate (5 - 0) [ConnectAttempt, Sleep 5]) \<and>
         connected (proto (fst (connect_retry opens 0 ?c1 []))) = connected (proto ?c1) \<and>
         written (proto (fst (connect_retry opens 0 ?c1 []))) = written (proto ?c1)"
      by (rule retry_all_fail) (use a in simp_all)
    then have nc: "\<not> connected (proto (fst (connect_retry opens 0 ?c1 [])))"
      by (simp add: fresh_protocol_def)
    show "fst (run_startup True True opens c) = ConnectFailed"
      using nc by (simp add: run_startup_def Let_def case_prod_beta)
    show "snd (snd (run_startup True True opens c)) = concat (replicate 5 [ConnectAttempt, Sleep 5])"
      unfolding tr using f by simp
    show "\<not> connected (proto (fst (snd (run_startup True True opens c))))"
      using nc by (simp add: run_startup_def Let_def case_prod_beta)
    show "written (proto (fst (snd (run_startup True True opens c)))) = []"
      using nc f by (simp add: run_startup_def Let_def fresh_protocol_def case_prod_beta)
    show "last (clog (fst (snd (run_startup True True opens c)))) =
        (ERROR, ''Failed to connect to R|Trader Pro after 5 attempts'')"
      using nc by (simp add: run_startup_def Let_def case_prod_beta)
  }
  {
    assume a: "k < 5 \<and> opens k = Some r \<and> (\<forall>i<k. opens i = None)"
    have f: "snd (connect_retry opens 0 ?c1 []) =
           [] @ concat (replicate (k - 0) [ConnectAttempt, Sleep 5]) @ [ConnectAttempt] \<and>
         connected (proto (fst (connect_retry opens 0 ?c1 []))) \<and>
         reader (proto (fst (connect_retry opens 0 ?c1 []))) = r \<and>
         written (proto (fst (connect_retry opens 0 ?c1 []))) = written (proto ?c1)"
      by (rule retry_first_success) (use a in simp_all)
    show "fst (run_startup True True opens c) = Connected"
      using f by (simp add: run_startup_def Let_def case_prod_beta)
    show "snd (snd (run_startup True True opens c)) =
        concat (replicate k [ConnectAttempt, Sleep 5]) @ [ConnectAttempt]"
      unfolding tr using f by simp
    show "connected (proto (fst (snd (run_startup True True opens c))))"
      using f by (simp add: run_startup_def Let_def case_prod_beta)
    show "reader (proto (fst (snd (run_startup True True opens c)))) = r"
      using f by (simp add: run_startup_def Let_def case_prod_beta)
  }
qed

theorem connect_attempts_bounded_witness:
  "fst (run_startup True True (\<lambda>i. None) (collector_on [])) = ConnectFailed \<and>
   snd (snd (run_startup True True (\<lambda>i. None) (collector_on []))) =
     [ConnectAttempt, Sleep 5, ConnectAttempt, Sleep 5, ConnectAttempt, Sleep 5,
      ConnectAttempt, Sleep 5, ConnectAttempt, Sleep 5] \<and>
   fst (run_startup True True
          (\<lambda>i. if i = 2 then Some \<lparr>buffer = [], exception = False, incoming = []\<rparr> else None)
          (collector_on [])) = Connected \<and>
   snd (snd (run_startup True True
          (\<lambda>i. if i = 2 then Some \<lparr>buffer = [], exception = False, incoming = []\<rparr> else None)
          (collector_on []))) =
     [ConnectAttempt, Sleep 5, ConnectAttempt, Sleep 5, ConnectAttempt]"
proof -
  have r5: "replicate 5 [ConnectAttempt, Sleep 5] =
      [[ConnectAttempt, Sleep 5], [ConnectAttempt, Sleep 5], [ConnectAttempt, Sleep 5],
       [ConnectAttempt, Sleep 5], [ConnectAttempt, Sleep 5]]"
    by (simp add: eval_nat_numeral)
  have r2: "replicate 2 [ConnectAttempt, Sleep 5] = [[ConnectAttempt, Sleep 5], [ConnectAttempt, Sleep 5]]"
    by (simp add: eval_nat_numeral)
  have a: "fst (run_startup True True (\<lambda>i. None) (collector_on [])) = ConnectFailed \<and>
      snd (snd (run_startup True True (\<lambda>i. None) (collector_on []))) =
        concat (replicate 5 [ConnectAttempt, Sleep 5])"
    using connect_attempts_bounded[of "\<lambda>i. None" "collector_on []"] by simp
  have b: "fst (run_startup True True
          (\<lambda>i. if i = 2 then Some \<lparr>buffer = [], exception = False, incoming = []\<rparr> else None)
          (collector_on [])) = Connected \<and>
      snd (snd (run_startup True True
          (\<lambda>i. if i = 2 then Some \<lparr>buffer = [], exception = False, incoming = []\<rparr> else None)
          (collector_on []))) = concat (replicate 2 [ConnectAttempt, Sleep 5]) @ [ConnectAttempt]"
    using connect_attempts_bounded[of
        "\<lambda>i. if i = 2 then Some \<lparr>buffer = [], exception = False, incoming = []\<rparr> else None"
        "collector_on []" 2 "\<lparr>buffer = [], exception = False, incoming = []\<rparr>"]
    by simp
  show ?thesis using a b by (simp add: r5 r2)
qed

section \<open>Properties of the exchange resolver\<close>

lemma startswith_prefix: "startswith s p = prefix p s"
  by (induction s p rule: startswith.induct) auto

lemma digits_set: "c \<in> set (str ''0123456789'') = is_digit c"
proof -
  have "set (str ''0123456789'') = {48, 49, 50, 51, 52, 53, 54, 55, 56, 57}"
    by (simp add: str_def)
  moreover have "is_digit c = (c \<in> {48, 49, 50, 51, 52, 53, 54, 55, 56, 57})"
    unfolding is_digit_def by (simp; arith)
  ultimately show ?thesis by simp
qed

lemma rstrip_scan_snoc:
  "rstrip_scan chars (xs @ [x]) (Suc (length xs)) =
     (if x \<in> set chars then rstrip_scan chars (xs @ [x]) (length xs) else Suc (length xs))"
  by simp

lemma rstrip_scan_append: "j \<le> length xs \<Longrightarrow> rstrip_scan chars (xs @ ys) j = rstrip_scan chars xs j"
  by (induction j) (simp_all add: nth_append)

lemma rstrip_scan_le: "rstrip_scan chars s j \<le> j"
  by (induction j) simp_all

lemma rstrip_rev: "rstrip s chars = rev (dropWhile (\<lambda>c. c \<in> set chars) (rev s))"
proof (induction s rule: rev_induct)
  case Nil
  show ?case by (simp add: rstrip_def)
next
  case (snoc x xs)
  show ?case
  proof (cases "x \<in> set chars")
    case True
    have "rstrip_scan chars (xs @ [x]) (Suc (length xs)) = rstrip_scan chars xs (length xs)"
      using True by (simp add: rstrip_scan_append)
    moreover have "rstrip_scan chars xs (length xs) \<le> length xs" by (rule rstrip_scan_le)
    ultimately have "rstrip (xs @ [x]) chars = rstrip xs chars"
      by (simp add: rstrip_def)
    with snoc True show ?thesis by simp
  next
    case False
    then show ?thesis by (simp add: rstrip_def)
  qed
qed

lemma exchange_loop_find:
  "exchange_loop table base =
     (case find (\<lambda>(p, e). prefix p base) table of Some (p, e) \<Rightarrow> e | None \<Rightarrow> str ''CME'')"
  by (induction table base rule: exchange_loop.induct) (simp_all add: startswith_prefix)

lemma resolver_refines_spec:
  "get_exchange_for_symbol symbol = resolveExchange_spec SYMBOL_EXCHANGE_MAP (str ''CME'') symbol"
proof -
  have "(\<lambda>c. c \<in> set (str ''0123456789'')) = is_digit"
    by (rule ext) (rule digits_set)
  then show ?thesis
    by (simp add: get_exchange_for_symbol_def resolveExchange_spec_def rstrip_rev exchange_loop_find)
qed

lemma resolver_ESU5: "get_exchange_for_symbol (str ''ESU5'') = str ''CME''"
  by (simp add: get_exchange_for_symbol_def rstrip_def SYMBOL_EXCHANGE_MAP_def str_def)

lemma exchange_loop_range: "exchange_loop table base \<in> insert (str ''CME'') (snd ` set table)"
  by (induction table base rule: exchange_loop.induct) auto

text \<open>
  Claim C9 (exchange resolver). The resolver is a total function of the symbol: for every
  symbol it equals the specification's resolver (strip the trailing digits, take the
  exchange of the first table entry whose root prefix the stripped symbol starts with,
  otherwise the default \<^verbatim>\<open>CME\<close>), so it always returns one of the four exchange names;
  \<^verbatim>\<open>ESU5\<close> is stripped to \<^verbatim>\<open>ESU\<close> and resolves through the prefix \<^verbatim>\<open>ES\<close> to
  \<^verbatim>\<open>CME\<close>.
\<close>

theorem exchange_resolver_total:
  "get_exchange_for_symbol symbol = resolveExchange_spec SYMBOL_EXCHANGE_MAP (str ''CME'') symbol \<and>
   get_exchange_for_symbol symbol \<in> {str ''COMEX'', str ''NYMEX'', str ''CME'', str ''CBOT''} \<and>
   rstrip (str ''ESU5'') (str ''0123456789'') = str ''ESU'' \<and>
   find (\<lambda>(p, e). prefix p (str ''ESU'')) SYMBOL_EXCHANGE_MAP = Some (str ''ES'', str ''CME'') \<and>
   get_exchange_for_symbol (str ''ESU5'') = str ''CME''"
proof -
  have "get_exchange_for_symbol symbol \<in> insert (str ''CME'') (snd ` set SYMBOL_EXCHANGE_MAP)"
    unfolding get_exchange_for_symbol_def Let_def by (rule exchange_loop_range)
  moreover have "insert (str ''CME'') (snd ` set SYMBOL_EXCHANGE_MAP) =
      {str ''COMEX'', str ''NYMEX'', str ''CME'', str ''CBOT''}"
    by (auto simp add: SYMBOL_EXCHANGE_MAP_def)
  ultimately have range: "get_exchange_for_symbol symbol \<in> {str ''COMEX'', str ''NYMEX'', str ''CME'', str ''CBOT''}"
    by simp
  have strip: "rstrip (str ''ESU5'') (str ''0123456789'') = str ''ESU''"
    by (simp add: rstrip_def str_def)
  have first: "find (\<lambda>(p, e). prefix p (str ''ESU'')) SYMBOL_EXCHANGE_MAP = Some (str ''ES'', str ''CME'')"
    by (simp add: SYMBOL_EXCHANGE_MAP_def str_def)
  show ?thesis
    using resolver_refines_spec range strip first resolver_ESU5 by blast
qed

end
